theory Spec2Isabelle
  imports Main "HOL-Library.Sublist" "HOL-Library.AList"
begin

section \<open>Strings\<close>

text \<open>
  Go strings are byte sequences; they are modelled as \<open>string\<close> (a list of \<open>char\<close>,
  one \<open>char\<close> per byte).  This section holds the functions of the Go package
  \<open>strings\<close> that \<open>main.go\<close> calls.
\<close>

definition HasPrefix :: "string \<Rightarrow> string \<Rightarrow> bool" where
  "HasPrefix s pre = prefix pre s"

definition HasSuffix :: "string \<Rightarrow> string \<Rightarrow> bool" where
  "HasSuffix s suf = prefix (rev suf) (rev s)"

text \<open>\<open>strings.Join\<close>: the elements with the separator between neighbours.\<close>

fun strings_Join :: "string list \<Rightarrow> string \<Rightarrow> string" where
  "strings_Join [] sep = []"
| "strings_Join [x] sep = x"
| "strings_Join (x # y # ys) sep = x @ sep @ strings_Join (y # ys) sep"

text \<open>\<open>strings.Contains\<close>: the substring starts at some position.\<close>

fun Contains :: "string \<Rightarrow> string \<Rightarrow> bool" where
  "Contains [] sub = (sub = [])"
| "Contains (c # cs) sub = (prefix sub (c # cs) \<or> Contains cs sub)"

text \<open>
  \<open>strings.ReplaceAll\<close> replaces the non-overlapping occurrences of \<open>old\<close> from left to
  right.  (For an empty \<open>old\<close>, which \<open>main.go\<close> never passes, the replacement goes
  before every byte and at the end.)
\<close>

function ReplaceAll :: "string \<Rightarrow> string \<Rightarrow> string \<Rightarrow> string" where
  "ReplaceAll s old new =
     (if old = [] then concat (map (\<lambda>c. new @ [c]) s) @ new
      else (case s of
              [] \<Rightarrow> []
            | c # cs \<Rightarrow> if prefix old s then new @ ReplaceAll (drop (length old) s) old new
                        else c # ReplaceAll cs old new))"
  by pat_completeness auto
termination
  by (relation "measure (\<lambda>(s, old, new). length s)") auto

text \<open>
  \<open>strings.Split\<close> cuts at the non-overlapping occurrences of the separator, found from
  left to right; a string without the separator is returned as the only piece.  (For an
  empty separator, which \<open>main.go\<close> never passes, every byte is a piece.)
\<close>

function Split :: "string \<Rightarrow> string \<Rightarrow> string list" where
  "Split s sep =
     (if sep = [] then map (\<lambda>c. [c]) s
      else (case s of
              [] \<Rightarrow> [[]]
            | c # cs \<Rightarrow> if prefix sep s then [] # Split (drop (length sep) s) sep
                        else (case Split cs sep of [] \<Rightarrow> [[c]] | w # ws \<Rightarrow> (c # w) # ws)))"
  by pat_completeness auto
termination
  by (relation "measure (\<lambda>(s, sep). length s)") auto

text \<open>
  \<open>strings.TrimSpace\<close> removes the leading and the trailing runes that satisfy
  \<open>unicode.IsSpace\<close>.  These runes, in their UTF-8 encoding, are: the ASCII characters
  tab, line feed, vertical tab, form feed, carriage return and space; U+0085 and U+00A0;
  U+1680, U+2000 to U+200A, U+2028, U+2029, U+202F, U+205F and U+3000.  A byte sequence that
  is not one of these encodings decodes to a rune that is not a space, so trimming stops
  there.
\<close>

definition space_runes :: "string list" where
  "space_runes =
     [[CHR 0x09], [CHR 0x0A], [CHR 0x0B], [CHR 0x0C], [CHR 0x0D], [CHR 0x20],
      [CHR 0xC2, CHR 0x85], [CHR 0xC2, CHR 0xA0],
      [CHR 0xE1, CHR 0x9A, CHR 0x80],
      [CHR 0xE2, CHR 0x80, CHR 0x80], [CHR 0xE2, CHR 0x80, CHR 0x81],
      [CHR 0xE2, CHR 0x80, CHR 0x82], [CHR 0xE2, CHR 0x80, CHR 0x83],
      [CHR 0xE2, CHR 0x80, CHR 0x84], [CHR 0xE2, CHR 0x80, CHR 0x85],
      [CHR 0xE2, CHR 0x80, CHR 0x86], [CHR 0xE2, CHR 0x80, CHR 0x87],
      [CHR 0xE2, CHR 0x80, CHR 0x88], [CHR 0xE2, CHR 0x80, CHR 0x89],
      [CHR 0xE2, CHR 0x80, CHR 0x8A],
      [CHR 0xE2, CHR 0x80, CHR 0xA8], [CHR 0xE2, CHR 0x80, CHR 0xA9],
      [CHR 0xE2, CHR 0x80, CHR 0xAF], [CHR 0xE2, CHR 0x81, CHR 0x9F],
      [CHR 0xE3, CHR 0x80, CHR 0x80]]"

definition space_rune_at :: "string list \<Rightarrow> string \<Rightarrow> string option" where
  "space_rune_at qs s = find (\<lambda>q. q \<noteq> [] \<and> prefix q s) qs"

function strip_runes :: "string list \<Rightarrow> string \<Rightarrow> string" where
  "strip_runes qs s =
     (case space_rune_at qs s of
        None \<Rightarrow> s
      | Some q \<Rightarrow> strip_runes qs (drop (length q) s))"
  by pat_completeness auto
termination
proof (relation "measure (\<lambda>(qs, s). length s)")
  show "wf (measure (\<lambda>(qs, s). length s))" by simp
next
  fix qs :: "string list" and s q :: string
  assume "space_rune_at qs s = Some q"
  then have "q \<noteq> []" and "prefix q s"
    by (auto simp: space_rune_at_def find_Some_iff)
  then show "((qs, drop (length q) s), (qs, s)) \<in> measure (\<lambda>(qs, s). length s)"
    by (cases s) (auto simp: prefix_def)
qed

definition TrimSpace :: "string \<Rightarrow> string" where
  "TrimSpace s = rev (strip_runes (map rev space_runes) (rev (strip_runes space_runes s)))"

declare ReplaceAll.simps [simp del] Split.simps [simp del] strip_runes.simps [simp del]

section \<open>Paths\<close>

text \<open>
  The functions of \<open>path/filepath\<close> that \<open>main.go\<close> calls, in their Unix flavour
  (separator \<open>/\<close>).
\<close>

text \<open>Cutting a string at every occurrence of one character.\<close>

fun splitc :: "char \<Rightarrow> string \<Rightarrow> string list" where
  "splitc d [] = [[]]"
| "splitc d (c # cs) =
     (if c = d then [] # splitc d cs
      else (case splitc d cs of [] \<Rightarrow> [[c]] | w # ws \<Rightarrow> (c # w) # ws))"

definition components :: "string \<Rightarrow> string list" where
  "components p = filter (\<lambda>c. c \<noteq> []) (splitc (CHR ''/'') p)"

text \<open>
  \<open>filepath.Clean\<close> works lexically: repeated separators and \<open>.\<close> elements vanish,
  an inner \<open>..\<close> removes the element before it, a \<open>..\<close> directly under the root
  vanishes, and the empty result is \<open>.\<close>.  The stack of kept elements is held
  with its top at the head.
\<close>

definition clean_step :: "bool \<Rightarrow> string list \<Rightarrow> string \<Rightarrow> string list" where
  "clean_step rooted st c =
     (if c = ''.'' then st
      else if c = ''..'' then
        (case st of
           [] \<Rightarrow> if rooted then [] else [''..'']
         | t # ts \<Rightarrow> if t = ''..'' then ''..'' # t # ts else ts)
      else c # st)"

definition isRooted :: "string \<Rightarrow> bool" where
  "isRooted p = (case p of [] \<Rightarrow> False | c # cs \<Rightarrow> c = CHR ''/'')"

definition Clean :: "string \<Rightarrow> string" where
  "Clean p =
     (let st = foldl (clean_step (isRooted p)) [] (components p);
          out = (if isRooted p then ''/'' else []) @ strings_Join (rev st) ''/''
      in if out = [] then ''.'' else out)"

text \<open>
  \<open>filepath.Join\<close>: leading empty elements are skipped, the rest is joined with the
  separator and cleaned; with nothing but empty elements the result is empty.
\<close>

fun Join :: "string list \<Rightarrow> string" where
  "Join [] = []"
| "Join (e # es) = (if e = [] then Join es else Clean (strings_Join (e # es) ''/''))"

section \<open>Subtitle conversion: \<open>srtToVtt\<close>\<close>

text \<open>
  The search loop for the timestamp line: the index of the first line that contains
  \<open>-->\<close>; \<open>None\<close> stands for the source's \<open>-1\<close>.
\<close>

fun timeLineIndex :: "string list \<Rightarrow> nat option" where
  "timeLineIndex [] = None"
| "timeLineIndex (l # ls) =
     (if Contains l ''-->'' then Some 0 else map_option Suc (timeLineIndex ls))"

text \<open>
  One round of the loop over the blocks, as a function from the builder's contents to the
  builder's contents: a block that is empty after trimming, or has no timestamp line, writes
  nothing.
\<close>

definition write_block :: "string \<Rightarrow> string \<Rightarrow> string" where
  "write_block vtt block =
     (let trimmedBlock = TrimSpace block in
      if trimmedBlock = [] then vtt
      else
        let lines = Split trimmedBlock ''\<newline>'' in
        (case timeLineIndex lines of
           None \<Rightarrow> vtt
         | Some i \<Rightarrow>
             vtt @ ReplaceAll (lines ! i) '','' ''.'' @ ''\<newline>''
                 @ concat (map (\<lambda>l. l @ ''\<newline>'') (drop (Suc i) lines))
                 @ ''\<newline>''))"

definition srtToVtt :: "string \<Rightarrow> string" where
  "srtToVtt srt =
     foldl write_block ''WEBVTT\<newline>\<newline>''
       (Split (ReplaceAll srt [CHR 0x0D, CHR 0x0A] ''\<newline>'') ''\<newline>\<newline>'')"


subsection \<open>The block-structured format, as the specification describes it\<close>

text \<open>
  A subtitle file in block-structured form is a sequence of blocks; a block is a non-empty
  sequence of lines (an index line, a timestamp line, text lines), and every line is
  non-empty and free of line-break characters.  In the file every line is followed by the
  line terminator and every block by one more terminator (the blank separator line).
\<close>

definition wf_line :: "string \<Rightarrow> bool" where
  "wf_line l = (l \<noteq> [] \<and> CHR 0x0A \<notin> set l \<and> CHR 0x0D \<notin> set l)"

definition srt_block :: "string list \<Rightarrow> bool" where
  "srt_block b = (b \<noteq> [] \<and> list_all wf_line b)"

definition render_block :: "string \<Rightarrow> string list \<Rightarrow> string" where
  "render_block eol b = concat (map (\<lambda>l. l @ eol) b) @ eol"

definition render_srt :: "string \<Rightarrow> string list list \<Rightarrow> string" where
  "render_srt eol blocks = concat (map (render_block eol) blocks)"

text \<open>
  The specification's conversion of one block: the lines before the first timestamp line are
  dropped, the timestamp line is emitted with every comma turned into a period, then the
  remaining lines and a blank terminator; a block without a timestamp line yields nothing.
  The output is the fixed header followed by the converted blocks in their order.
\<close>

definition cue_of_block :: "string list \<Rightarrow> string" where
  "cue_of_block b =
     (case dropWhile (\<lambda>l. \<not> Contains l ''-->'') b of
        [] \<Rightarrow> []
      | t # texts \<Rightarrow>
          map (\<lambda>c. if c = CHR '','' then CHR ''.'' else c) t @ ''\<newline>''
            @ concat (map (\<lambda>l. l @ ''\<newline>'') texts) @ ''\<newline>'')"

definition vtt_of_blocks :: "string list list \<Rightarrow> string" where
  "vtt_of_blocks blocks = ''WEBVTT\<newline>\<newline>'' @ concat (map cue_of_block blocks)"

text \<open>A string in which no two line feeds are adjacent and which does not end with one.\<close>

fun sep_free :: "string \<Rightarrow> bool" where
  "sep_free [] = True"
| "sep_free [c] = (c \<noteq> CHR 0x0A)"
| "sep_free (c # d # cs) = ((c \<noteq> CHR 0x0A \<or> d \<noteq> CHR 0x0A) \<and> sep_free (d # cs))"

subsection \<open>White space around a block\<close>

text \<open>
  The format allows white space anywhere inside a line.  \<open>srtToVtt\<close> removes the white
  space at the two ends of every block before it cuts the block into lines, so two more
  notions are needed to say what it computes: a block that has no white space at the start
  of its first line or at the end of its last line, and the lines of a block after the
  white space around the block has been removed.
\<close>

definition starts_with_space :: "string \<Rightarrow> bool" where
  "starts_with_space s = list_ex (\<lambda>q. prefix q s) space_runes"

definition ends_with_space :: "string \<Rightarrow> bool" where
  "ends_with_space s = list_ex (\<lambda>q. prefix (rev q) (rev s)) space_runes"

definition outer_trimmed :: "string list \<Rightarrow> bool" where
  "outer_trimmed b = (\<not> starts_with_space (hd b) \<and> \<not> ends_with_space (last b))"

definition trim_block :: "string list \<Rightarrow> string list" where
  "trim_block b = Split (TrimSpace (strings_Join b ''\<newline>'')) ''\<newline>''"

section \<open>The torrent client and its collaborators\<close>

text \<open>
  A file of a torrent (\<open>torrent.File\<close>): its display path and its bytes as the reader
  delivers them.  \<open>bad_from\<close> is the offset from which the reader fails with an error
  other than end of file (\<open>None\<close>: every read succeeds).
\<close>

record tfile =
  DisplayPath :: string
  contents :: string
  bad_from :: "nat option"

definition Length :: "tfile \<Rightarrow> int" where
  "Length f = int (length (contents f))"

text \<open>
  A torrent handle (\<open>*torrent.Torrent\<close>).  \<open>handle\<close> is the identity of the object:
  the client gives every torrent it creates a fresh one.
\<close>

record Torrent =
  handle :: nat
  Name :: string
  InfoHash :: string
  Files :: "tfile list"

text \<open>\<open>cacheEntry\<close>; times are nanoseconds.  The mutex does not appear: calls run one after another.\<close>

record cacheEntry =
  torrent :: Torrent
  prevBytesRead :: int
  prevReadTime :: int
  lastAccessed :: int

text \<open>
  The content engine (\<open>torrent.Client\<close>) as far as the program observes it: the next
  fresh handle, the handles dropped so far, and counters of the calls that start a
  resolution.
\<close>

record Client =
  next_handle :: nat
  dropped :: "nat list"
  AddMagnet_calls :: nat
  AddTorrent_calls :: nat

text \<open>
  The metadata store (\<open>lotusdb.DB\<close>): its rows and a counter of the queries made.  The
  store is taken to be reliable: \<open>Put\<close> and \<open>Delete\<close> take effect (the source only logs
  their errors), and \<open>Get\<close> fails exactly for a missing key.
\<close>

record DB =
  rows :: "(string \<times> string) list"
  Get_calls :: nat

text \<open>
  \<open>TorrentClient\<close>, with the fields of the source that the modelled functions use, and
  with the part of the world that these functions read and change: the field \<open>disk\<close> is
  the file system the client works on, a finite map from the paths of regular files to their
  contents, \<open>written\<close> lists the paths given to \<open>os.WriteFile\<close>, in order, and
  \<open>clock\<close> is the wall clock (\<open>time.Now()\<close>, in nanoseconds), which advances only
  while a call waits.  The LRU cache is the list of its entries, most recently used first;
  the map \<open>vttFileMap\<close> is a list of pairs with distinct keys.
\<close>

record TorrentClient =
  client :: Client
  cache :: "(string \<times> cacheEntry) list"
  db :: DB
  downloadDir :: string
  vttFileMap :: "(string \<times> string) list"
  port :: nat
  disk :: "(string \<times> string) list"
  written :: "string list"
  clock :: int

subsection \<open>The file system\<close>

text \<open>
  \<open>os.Remove\<close> deletes the file when it exists; when it does not, the call fails and
  the source logs the error and goes on.  \<open>os.Stat\<close> succeeds for an existing file.
\<close>

definition os_Remove :: "string \<Rightarrow> TorrentClient \<Rightarrow> TorrentClient" where
  "os_Remove path tc = tc\<lparr>disk := AList.delete path (disk tc)\<rparr>"

definition os_Stat :: "TorrentClient \<Rightarrow> string \<Rightarrow> nat option" where
  "os_Stat tc path = map_option length (map_of (disk tc) path)"

definition os_WriteFile :: "string \<Rightarrow> string \<Rightarrow> TorrentClient \<Rightarrow> TorrentClient" where
  "os_WriteFile path bytes tc =
     tc\<lparr>disk := AList.update path bytes (disk tc), written := written tc @ [path]\<rparr>"

text \<open>
  \<open>filepath.Match\<close> for patterns made of literal characters, \<open>*\<close> (any run of
  characters other than the separator) and \<open>?\<close> (one such character); character
  classes and escapes are not modelled.  \<open>hasMeta\<close> recognises all four kinds of
  metacharacter.
\<close>

fun Match :: "string \<Rightarrow> string \<Rightarrow> bool" where
  "Match [] [] = True"
| "Match [] (c # cs) = False"
| "Match (p # ps) [] = (p = CHR ''*'' \<and> Match ps [])"
| "Match (p # ps) (c # cs) =
     (if p = CHR ''*'' then Match ps (c # cs) \<or> (c \<noteq> CHR ''/'' \<and> Match (p # ps) cs)
      else (p = c \<or> (p = CHR ''?'' \<and> c \<noteq> CHR ''/'')) \<and> Match ps cs)"

definition hasMeta :: "string \<Rightarrow> bool" where
  "hasMeta p = list_ex (\<lambda>c. c = CHR ''*'' \<or> c = CHR ''?'' \<or> c = CHR ''['' \<or> c = CHR 0x5C) p"

text \<open>\<open>filepath.Split\<close>: the path up to and including the last separator, and the rest.\<close>

definition path_Split :: "string \<Rightarrow> string \<times> string" where
  "path_Split p =
     (let file = rev (takeWhile (\<lambda>c. c \<noteq> CHR ''/'') (rev p))
      in (take (length p - length file) p, file))"

definition cleanGlobPath :: "string \<Rightarrow> string" where
  "cleanGlobPath p = (if p = [] then ''.'' else if p = ''/'' then p else butlast p)"

text \<open>The names of the regular files directly inside a directory.\<close>

definition Readdirnames :: "(string \<times> string) list \<Rightarrow> string \<Rightarrow> string list" where
  "Readdirnames d dir =
     (let pre = (if dir = ''/'' then dir else dir @ ''/'')
      in map (drop (length pre))
           (filter (\<lambda>p. prefix pre p \<and> drop (length pre) p \<noteq> []
                        \<and> CHR ''/'' \<notin> set (drop (length pre) p))
              (map fst d)))"

text \<open>
  \<open>filepath.Glob\<close>.  A pattern without metacharacters names at most itself.  Otherwise
  the pattern is split into directory and file pattern, and the names in the directory that
  match the file pattern are returned, joined to the directory.  The model covers a
  directory part that is free of metacharacters (Go would expand the directory part as a
  pattern of its own); for any other pattern the model finds nothing.
\<close>

definition Glob :: "(string \<times> string) list \<Rightarrow> string \<Rightarrow> string list" where
  "Glob d pattern =
     (if \<not> hasMeta pattern then (if map_of d pattern = None then [] else [pattern])
      else
        let (dir0, file) = path_Split pattern; dir = cleanGlobPath dir0 in
        if hasMeta dir then []
        else map (\<lambda>n. Join [dir, n]) (filter (Match file) (Readdirnames d dir)))"

subsection \<open>Releasing a torrent and cleaning up after it\<close>

definition Drop :: "Torrent \<Rightarrow> TorrentClient \<Rightarrow> TorrentClient" where
  "Drop t tc = tc\<lparr>client := (client tc)\<lparr>dropped := dropped (client tc) @ [handle t]\<rparr>\<rparr>"

text \<open>
  \<open>cleanupTorrentAssociatedFiles\<close>.  First loop: every entry of \<open>vttFileMap\<close> whose key
  starts with the info hash and an underscore has its file removed and its key collected;
  second loop: the collected keys are deleted from the map; then the matches of the two
  glob patterns are removed, pattern after pattern.  (Go visits a map in no fixed order;
  the removals do not depend on the order.)
\<close>

definition remove_matches :: "string \<Rightarrow> TorrentClient \<Rightarrow> TorrentClient" where
  "remove_matches pattern tc = fold os_Remove (Glob (disk tc) pattern) tc"

definition cleanupTorrentAssociatedFiles :: "string \<Rightarrow> TorrentClient \<Rightarrow> TorrentClient" where
  "cleanupTorrentAssociatedFiles infoHash tc =
     (let hits = filter (\<lambda>(key, filePath). HasPrefix key (infoHash @ ''_'')) (vttFileMap tc);
          tc1 = fold os_Remove (map snd hits) tc;
          keysToDelete = map fst hits;
          tc2 = tc1\<lparr>vttFileMap := fold AList.delete keysToDelete (vttFileMap tc1)\<rparr>;
          patterns = [Join [downloadDir tc, infoHash @ ''_*.ass''],
                      Join [downloadDir tc, infoHash @ ''_*.log'']]
      in fold remove_matches patterns tc2)"

subsection \<open>The LRU cache\<close>

text \<open>
  The cache is created by \<open>lru.NewWithEvict(2, ...)\<close>.  The callback drops the evicted
  entry's torrent and cleans up the files that belong to its info hash.
\<close>

definition onEvicted :: "cacheEntry \<Rightarrow> TorrentClient \<Rightarrow> TorrentClient" where
  "onEvicted entry tc =
     cleanupTorrentAssociatedFiles (InfoHash (torrent entry)) (Drop (torrent entry) tc)"

definition cache_size :: nat where
  "cache_size = 2"

text \<open>
  The operations of \<open>lru.Cache\<close>.  \<open>Get\<close> marks the entry it finds as most recently
  used.  \<open>Add\<close> replaces the value of a present key (and marks it most recently used,
  without eviction); a new key is put in front, and when the cache then holds more than its
  size, the least recently used entry is removed and the callback runs on it.  \<open>Remove\<close>
  removes a present key and runs the callback on its entry.  \<open>Keys\<close> lists the keys from
  oldest to newest.
\<close>

definition cache_Get :: "string \<Rightarrow> TorrentClient \<Rightarrow> cacheEntry option \<times> TorrentClient" where
  "cache_Get key tc =
     (case map_of (cache tc) key of
        None \<Rightarrow> (None, tc)
      | Some entry \<Rightarrow> (Some entry, tc\<lparr>cache := (key, entry) # AList.delete key (cache tc)\<rparr>))"

definition cache_Add :: "string \<Rightarrow> cacheEntry \<Rightarrow> TorrentClient \<Rightarrow> TorrentClient" where
  "cache_Add key entry tc =
     (case map_of (cache tc) key of
        Some old \<Rightarrow> tc\<lparr>cache := (key, entry) # AList.delete key (cache tc)\<rparr>
      | None \<Rightarrow>
          let items = (key, entry) # cache tc in
          if length items > cache_size
          then onEvicted (snd (last items)) (tc\<lparr>cache := butlast items\<rparr>)
          else tc\<lparr>cache := items\<rparr>)"

definition cache_Remove :: "string \<Rightarrow> TorrentClient \<Rightarrow> TorrentClient" where
  "cache_Remove key tc =
     (case map_of (cache tc) key of
        None \<Rightarrow> tc
      | Some entry \<Rightarrow> onEvicted entry (tc\<lparr>cache := AList.delete key (cache tc)\<rparr>))"

definition cache_Keys :: "TorrentClient \<Rightarrow> string list" where
  "cache_Keys tc = rev (map fst (cache tc))"

text \<open>
  The cache holds pointers to its entries: an assignment to a field of an entry that was
  obtained from the cache changes the cached entry.
\<close>

definition set_lastAccessed :: "string \<Rightarrow> int \<Rightarrow> TorrentClient \<Rightarrow> TorrentClient" where
  "set_lastAccessed key now tc =
     tc\<lparr>cache := map (\<lambda>(k, e). if k = key then (k, e\<lparr>lastAccessed := now\<rparr>) else (k, e)) (cache tc)\<rparr>"

subsection \<open>The metadata store\<close>

definition db_Get :: "string \<Rightarrow> TorrentClient \<Rightarrow> string option \<times> TorrentClient" where
  "db_Get key tc =
     (map_of (rows (db tc)) key, tc\<lparr>db := (db tc)\<lparr>Get_calls := Suc (Get_calls (db tc))\<rparr>\<rparr>)"

definition db_Put :: "string \<Rightarrow> string \<Rightarrow> TorrentClient \<Rightarrow> TorrentClient" where
  "db_Put key val tc = tc\<lparr>db := (db tc)\<lparr>rows := AList.update key val (rows (db tc))\<rparr>\<rparr>"

definition db_Delete :: "string \<Rightarrow> TorrentClient \<Rightarrow> TorrentClient" where
  "db_Delete key tc = tc\<lparr>db := (db tc)\<lparr>rows := AList.delete key (rows (db tc))\<rparr>\<rparr>"

section \<open>Resolving a magnet link: \<open>getTorrentFromMagnet\<close>\<close>

text \<open>
  The metadata of a torrent (\<open>metainfo.MetaInfo\<close>), as far as the program uses it.
\<close>

record MetaInfo =
  mi_Name :: string
  mi_InfoHash :: string
  mi_Files :: "tfile list"

text \<open>The three communications of the \<open>select\<close> statement that waits for the info.\<close>

datatype select_case = GotInfo | CtxDone | TimeAfter

text \<open>
  The answers of the collaborators, which the program does not determine.  An error is the
  text of its message.
  \<^item> \<open>ParseMagnetURI\<close>: the error, or the info hash of the link as a hexadecimal string;
  \<^item> \<open>metainfo_Load\<close>: the error, or the metadata decoded from the stored bytes;
  \<^item> \<open>AddTorrent_error\<close>, \<open>AddMagnet_error\<close>: the error of the content engine, if any;
  \<^item> \<open>swarm\<close>: the metadata the engine obtains for a magnet link, and \<open>info_after\<close>:
    after how many nanoseconds it obtains them (\<open>None\<close>: never);
  \<^item> \<open>done_after\<close>: after how many nanoseconds the context of the client is cancelled
    (\<open>None\<close>: never), and \<open>ctx_Err\<close>: the error of the cancelled context;
  \<^item> \<open>pick\<close>: the choice \<open>select\<close> makes among communications that are ready together;
  \<^item> \<open>mi_Write\<close>: the error, or the encoding of the metadata.
\<close>

record Env =
  ParseMagnetURI :: "string \<Rightarrow> string + string"
  metainfo_Load :: "string \<Rightarrow> string + MetaInfo"
  AddTorrent_error :: "MetaInfo \<Rightarrow> string option"
  AddMagnet_error :: "string \<Rightarrow> string option"
  swarm :: "string \<Rightarrow> MetaInfo"
  info_after :: "string \<Rightarrow> nat option"
  done_after :: "nat option"
  ctx_Err :: string
  pick :: "select_case list \<Rightarrow> select_case"
  mi_Write :: "MetaInfo \<Rightarrow> string + string"

text \<open>The errors \<open>getTorrentFromMagnet\<close> returns, and their messages (\<open>err.Error()\<close>).\<close>

datatype resolve_error =
    InvalidMagnet string
  | AddTorrentFailed string
  | AddMagnetFailed string
  | ContextDone string
  | InfoTimeout

fun Error :: "resolve_error \<Rightarrow> string" where
  "Error (InvalidMagnet e) = ''invalid magnet link: '' @ e"
| "Error (AddTorrentFailed e) = ''failed to add torrent from cached metadata: '' @ e"
| "Error (AddMagnetFailed e) = ''failed to add magnet link: '' @ e"
| "Error (ContextDone e) = e"
| "Error InfoTimeout = ''timeout getting torrent info''"

text \<open>
  The content engine gives every torrent it adds a fresh handle.  A torrent added from
  metadata has its info at once; a torrent added from a magnet link has none yet.
\<close>

definition AddTorrent :: "Env \<Rightarrow> MetaInfo \<Rightarrow> TorrentClient \<Rightarrow> (string + Torrent) \<times> TorrentClient" where
  "AddTorrent env mi tc =
     (let c = (client tc)\<lparr>AddTorrent_calls := Suc (AddTorrent_calls (client tc))\<rparr> in
      case AddTorrent_error env mi of
        Some e \<Rightarrow> (Inl e, tc\<lparr>client := c\<rparr>)
      | None \<Rightarrow>
          (Inr \<lparr>handle = next_handle c, Name = mi_Name mi, InfoHash = mi_InfoHash mi,
                Files = mi_Files mi\<rparr>,
           tc\<lparr>client := c\<lparr>next_handle := Suc (next_handle c)\<rparr>\<rparr>))"

definition AddMagnet :: "Env \<Rightarrow> string \<Rightarrow> string \<Rightarrow> TorrentClient \<Rightarrow> (string + Torrent) \<times> TorrentClient" where
  "AddMagnet env magnetLink infoHash tc =
     (let c = (client tc)\<lparr>AddMagnet_calls := Suc (AddMagnet_calls (client tc))\<rparr> in
      case AddMagnet_error env magnetLink of
        Some e \<Rightarrow> (Inl e, tc\<lparr>client := c\<rparr>)
      | None \<Rightarrow>
          (Inr \<lparr>handle = next_handle c, Name = [], InfoHash = infoHash, Files = []\<rparr>,
           tc\<lparr>client := c\<lparr>next_handle := Suc (next_handle c)\<rparr>\<rparr>))"

text \<open>
  The \<open>select\<close> statement with the cases \<open><-t.GotInfo()\<close>, \<open><-tc.ctx.Done()\<close> and
  \<open><-time.After(30 * time.Second)\<close>.  It blocks until the first of the three channels is
  ready and takes that case; when several become ready at the same instant, one of them is
  chosen.  The result is the case taken and the time waited, in nanoseconds.
\<close>

definition info_timeout :: nat where
  "info_timeout = 30 * 1000000000"

definition select_wait ::
  "nat option \<Rightarrow> nat option \<Rightarrow> (select_case list \<Rightarrow> select_case) \<Rightarrow> select_case \<times> nat" where
  "select_wait info done ch =
     (let ready = [(GotInfo, info), (CtxDone, done), (TimeAfter, Some info_timeout)];
          d = fold min (List.map_filter snd ready) info_timeout;
          cs = map fst (filter (\<lambda>(c, t). t = Some d) ready);
          c = ch cs
      in (if c \<in> set cs then c else hd cs, d))"

definition sleep :: "nat \<Rightarrow> TorrentClient \<Rightarrow> TorrentClient" where
  "sleep d tc = tc\<lparr>clock := clock tc + int d\<rparr>"

text \<open>
  Step 3 of \<open>getTorrentFromMagnet\<close>, the fetch from the magnet link: the link is added to
  the engine, and the caller waits.  When the info arrives, the metadata is written to the
  store (an encoding error is logged only), an entry is added to the cache and the torrent
  is returned; when the context is cancelled, its error is returned; after 30 seconds the
  torrent is dropped and the timeout error is returned.
\<close>

definition fetchFromMagnet ::
  "Env \<Rightarrow> string \<Rightarrow> string \<Rightarrow> TorrentClient \<Rightarrow> (resolve_error + Torrent) \<times> TorrentClient" where
  "fetchFromMagnet env magnetLink infoHash tc =
     (case AddMagnet env magnetLink infoHash tc of
        (Inl e, tc1) \<Rightarrow> (Inl (AddMagnetFailed e), tc1)
      | (Inr t, tc1) \<Rightarrow>
          (case select_wait (info_after env magnetLink) (done_after env) (pick env) of
             (GotInfo, d) \<Rightarrow>
               let tc2 = sleep d tc1;
                   mi = swarm env magnetLink;
                   t' = t\<lparr>Name := mi_Name mi, Files := mi_Files mi\<rparr>;
                   tc3 = (case mi_Write env mi of
                            Inl e \<Rightarrow> tc2
                          | Inr bytes \<Rightarrow> db_Put infoHash bytes tc2);
                   entry = \<lparr>torrent = t', prevBytesRead = 0, prevReadTime = clock tc3,
                            lastAccessed = clock tc3\<rparr>
               in (Inr t', cache_Add infoHash entry tc3)
           | (CtxDone, d) \<Rightarrow> (Inl (ContextDone (ctx_Err env)), sleep d tc1)
           | (TimeAfter, d) \<Rightarrow> (Inl InfoTimeout, Drop t (sleep d tc1))))"

text \<open>
  \<open>getTorrentFromMagnet\<close>: the cache first, then the metadata store, then the magnet link.
  Metadata found in the store that cannot be decoded sends the call on to the magnet link.
\<close>

definition getTorrentFromMagnet ::
  "Env \<Rightarrow> string \<Rightarrow> TorrentClient \<Rightarrow> (resolve_error + Torrent) \<times> TorrentClient" where
  "getTorrentFromMagnet env magnetLink tc =
     (case ParseMagnetURI env magnetLink of
        Inl e \<Rightarrow> (Inl (InvalidMagnet e), tc)
      | Inr infoHash \<Rightarrow>
          (case cache_Get infoHash tc of
             (Some entry, tc1) \<Rightarrow>
               (Inr (torrent entry), set_lastAccessed infoHash (clock tc1) tc1)
           | (None, tc1) \<Rightarrow>
               (case db_Get infoHash tc1 of
                  (Some metaBytes, tc2) \<Rightarrow>
                    (case metainfo_Load env metaBytes of
                       Inl e \<Rightarrow> fetchFromMagnet env magnetLink infoHash tc2
                     | Inr mi \<Rightarrow>
                         (case AddTorrent env mi tc2 of
                            (Inl e, tc3) \<Rightarrow> (Inl (AddTorrentFailed e), tc3)
                          | (Inr t, tc3) \<Rightarrow>
                              let entry = \<lparr>torrent = t, prevBytesRead = 0,
                                           prevReadTime = clock tc3, lastAccessed = clock tc3\<rparr>
                              in (Inr t, cache_Add infoHash entry tc3)))
                | (None, tc2) \<Rightarrow> fetchFromMagnet env magnetLink infoHash tc2)))"

section \<open>The sweeper: \<open>cleanupInactiveTorrents\<close>\<close>

text \<open>\<open>time.Since\<close>: the time that has passed since the given instant.\<close>

definition time_Since :: "TorrentClient \<Rightarrow> int \<Rightarrow> int" where
  "time_Since tc t = clock tc - t"

text \<open>
  The body of the first loop of \<open>cleanupInactiveTorrents\<close>, on the list of the keys queued
  so far and the client: the key is looked up in the cache, and when its entry has been
  inactive for more than \<open>maxInactiveTime\<close> the key is queued.
\<close>

definition queue_inactive ::
  "int \<Rightarrow> string \<Rightarrow> string list \<times> TorrentClient \<Rightarrow> string list \<times> TorrentClient" where
  "queue_inactive maxInactiveTime key s =
     (case s of (keysToDrop, tc) \<Rightarrow>
        (case cache_Get key tc of
           (None, tc1) \<Rightarrow> (keysToDrop, tc1)
         | (Some entry, tc1) \<Rightarrow>
             let inactiveDuration = time_Since tc1 (lastAccessed entry) in
             if inactiveDuration > maxInactiveTime then (keysToDrop @ [key], tc1)
             else (keysToDrop, tc1)))"

text \<open>
  The body of the second loop: a queued key that is still in the cache has its torrent
  dropped, is removed from the cache (which runs the eviction callback) and is deleted from
  the metadata store.
\<close>

definition drop_inactive :: "string \<Rightarrow> TorrentClient \<Rightarrow> TorrentClient" where
  "drop_inactive infoHash tc =
     (case cache_Get infoHash tc of
        (None, tc1) \<Rightarrow> tc1
      | (Some entry, tc1) \<Rightarrow>
          db_Delete infoHash (cache_Remove infoHash (Drop (torrent entry) tc1)))"

definition cleanupInactiveTorrents :: "int \<Rightarrow> TorrentClient \<Rightarrow> TorrentClient" where
  "cleanupInactiveTorrents maxInactiveTime tc =
     (case fold (queue_inactive maxInactiveTime) (cache_Keys tc) ([], tc) of
        (keysToDrop, tc1) \<Rightarrow>
          if length keysToDrop > 0 then fold drop_inactive keysToDrop tc1 else tc1)"

text \<open>
  \<open>periodicCleanup\<close> runs the cleanup at every tick of its ticker until the context is
  cancelled; \<open>ticks\<close> is the number of ticks that come before the cancellation.  In
  \<open>main\<close> the sweeper is started only for a positive \<open>cleanupInactiveAfter\<close>, with an
  interval of five minutes.
\<close>

primrec periodicCleanup :: "nat \<Rightarrow> nat \<Rightarrow> int \<Rightarrow> TorrentClient \<Rightarrow> TorrentClient" where
  "periodicCleanup 0 interval maxInactiveTime tc = tc"
| "periodicCleanup (Suc ticks) interval maxInactiveTime tc =
     periodicCleanup ticks interval maxInactiveTime
       (cleanupInactiveTorrents maxInactiveTime (sleep interval tc))"

definition main_cleanup :: "int \<Rightarrow> nat \<Rightarrow> TorrentClient \<Rightarrow> TorrentClient" where
  "main_cleanup cleanupInactiveAfter ticks tc =
     (if cleanupInactiveAfter > 0
      then periodicCleanup ticks (5 * 60 * 1000000000) cleanupInactiveAfter tc
      else tc)"

text \<open>
  An entry is inactive, for a threshold, when the time since its last access is strictly
  greater than the threshold.
\<close>

definition inactive :: "int \<Rightarrow> TorrentClient \<Rightarrow> string \<Rightarrow> bool" where
  "inactive T tc k =
     (case map_of (cache tc) k of
        None \<Rightarrow> False
      | Some e \<Rightarrow> time_Since tc (lastAccessed e) > T)"

section \<open>Numbers as text\<close>

text \<open>
  \<open>strconv.FormatInt\<close> in base 10, \<open>strconv.Atoi\<close>, and the scanning of a decimal
  integer by \<open>fmt.Sscanf\<close> with the verb \<open>%d\<close>.  The type \<open>int\<close> of Go has 64 bits on
  the platforms the program is built for.
\<close>

fun FormatUint :: "nat \<Rightarrow> string" where
  "FormatUint n =
     (if n < 10 then [''0123456789'' ! n]
      else FormatUint (n div 10) @ [''0123456789'' ! (n mod 10)])"

definition FormatInt :: "int \<Rightarrow> string" where
  "FormatInt i = (if i < 0 then CHR ''-'' # FormatUint (nat (- i)) else FormatUint (nat i))"

definition is_digit :: "char \<Rightarrow> bool" where
  "is_digit c = (c \<in> set ''0123456789'')"

definition ParseUint :: "string \<Rightarrow> nat" where
  "ParseUint ds = foldl (\<lambda>a c. 10 * a + (of_char c - 48)) 0 ds"

definition in_int64 :: "int \<Rightarrow> bool" where
  "in_int64 i = (- (2 ^ 63) \<le> i \<and> i < 2 ^ 63)"

definition wrap64 :: "int \<Rightarrow> int" where
  "wrap64 i = (i + 2 ^ 63) mod 2 ^ 64 - 2 ^ 63"

text \<open>
  \<open>strconv.Atoi\<close>: an optional sign and at least one digit, nothing else; a value outside
  the range of the type is an error.
\<close>

definition Atoi :: "string \<Rightarrow> int option" where
  "Atoi s =
     (let (neg, ds) = (case s of
                         [] \<Rightarrow> (False, [])
                       | c # cs \<Rightarrow> if c = CHR ''-'' then (True, cs)
                                   else if c = CHR ''+'' then (False, cs) else (False, s));
          i = (if neg then - int (ParseUint ds) else int (ParseUint ds))
      in if ds = [] \<or> \<not> list_all is_digit ds \<or> \<not> in_int64 i then None else Some i)"

text \<open>
  The white space that a scan skips before a number: the runes of \<open>unicode.IsSpace\<close>, but
  a line feed stops the scan with an error.
\<close>

function skip_space :: "string \<Rightarrow> string option" where
  "skip_space s =
     (if prefix ''\<newline>'' s then None
      else (case space_rune_at space_runes s of
              None \<Rightarrow> Some s
            | Some q \<Rightarrow> skip_space (drop (length q) s)))"
  by pat_completeness auto
termination
proof (relation "measure length")
  show "wf (measure length)" by simp
next
  fix s q :: string
  assume "space_rune_at space_runes s = Some q"
  then have "q \<noteq> []" and "prefix q s"
    by (auto simp: space_rune_at_def find_Some_iff)
  then show "(drop (length q) s, s) \<in> measure length"
    by (cases s) (auto simp: prefix_def)
qed

text \<open>
  The verb \<open>%d\<close>: white space is skipped, a sign is accepted, then at least one digit is
  required and all digits that follow are taken; the token must be in the range of
  \<open>int64\<close>.  The result is the number and the rest of the input.
\<close>

definition scan_int :: "string \<Rightarrow> (int \<times> string) option" where
  "scan_int s =
     (case skip_space s of
        None \<Rightarrow> None
      | Some s1 \<Rightarrow>
          let (neg, s2) = (case s1 of
                             [] \<Rightarrow> (False, [])
                           | c # cs \<Rightarrow> if c = CHR ''-'' then (True, cs)
                                       else if c = CHR ''+'' then (False, cs) else (False, s1));
              ds = takeWhile is_digit s2;
              i = (if neg then - int (ParseUint ds) else int (ParseUint ds))
          in if ds = [] \<or> \<not> in_int64 i then None else Some (i, dropWhile is_digit s2))"

text \<open>
  \<open>fmt.Sscanf(rangeHeader, "bytes=%d-%d", &start, &end)\<close>, whose error the source ignores:
  the result is the pair of the values of \<open>start\<close> and \<open>end\<close> after the call.  Both are
  zero at first, and a variable whose verb is not reached, or fails, keeps its value.
  Input after the second number is not looked at.
\<close>

definition Sscanf_range :: "string \<Rightarrow> int \<times> int" where
  "Sscanf_range s =
     (if \<not> prefix ''bytes='' s then (0, 0)
      else (case scan_int (drop 6 s) of
              None \<Rightarrow> (0, 0)
            | Some (start, rest) \<Rightarrow>
                (case rest of
                   [] \<Rightarrow> (start, 0)
                 | c # rest' \<Rightarrow>
                     if c \<noteq> CHR ''-'' then (start, 0)
                     else (case scan_int rest' of
                             None \<Rightarrow> (start, 0)
                           | Some (end, rest'') \<Rightarrow> (start, end)))))"

declare FormatUint.simps [simp del] skip_space.simps [simp del]

section \<open>Requests and responses\<close>

text \<open>
  A request, as far as the handlers read it: the query parameters and the header, both as
  lists of pairs (\<open>Get\<close> returns the first value of a key, or the empty string).
\<close>

record Request =
  query :: "(string \<times> string) list"
  header :: "(string \<times> string) list"

definition Query_Get :: "Request \<Rightarrow> string \<Rightarrow> string" where
  "Query_Get r key = (case map_of (query r) key of None \<Rightarrow> [] | Some v \<Rightarrow> v)"

definition Header_Get :: "Request \<Rightarrow> string \<Rightarrow> string" where
  "Header_Get r key = (case map_of (header r) key of None \<Rightarrow> [] | Some v \<Rightarrow> v)"

text \<open>
  The response writer: the header map that the handler fills, the status code written
  (\<open>0\<close>: none yet), the header as it was when the status was written, which is the header
  the client receives, and the body written so far.  \<open>accepts\<close> is the number of body bytes
  after which the client closes the connection (\<open>None\<close>: it stays); a write that goes
  beyond it fails.
\<close>

record ResponseWriter =
  Header :: "(string \<times> string) list"
  Code :: nat
  Sent :: "(string \<times> string) list"
  Body :: string
  accepts :: "nat option"

definition Header_Set :: "string \<Rightarrow> string \<Rightarrow> ResponseWriter \<Rightarrow> ResponseWriter" where
  "Header_Set key val w = w\<lparr>Header := AList.update key val (Header w)\<rparr>"

definition Header_Del :: "string \<Rightarrow> ResponseWriter \<Rightarrow> ResponseWriter" where
  "Header_Del key w = w\<lparr>Header := AList.delete key (Header w)\<rparr>"

text \<open>\<open>WriteHeader\<close>: the first call fixes the status and the header; later calls are ignored.\<close>

definition WriteHeader :: "nat \<Rightarrow> ResponseWriter \<Rightarrow> ResponseWriter" where
  "WriteHeader code w = (if Code w = 0 then w\<lparr>Code := code, Sent := Header w\<rparr> else w)"

text \<open>\<open>Write\<close>: the status 200 is written first if none was; the result tells whether the write succeeded.\<close>

definition Write :: "string \<Rightarrow> ResponseWriter \<Rightarrow> bool \<times> ResponseWriter" where
  "Write bytes w =
     (let w1 = WriteHeader 200 w in
      case accepts w1 of
        None \<Rightarrow> (True, w1\<lparr>Body := Body w1 @ bytes\<rparr>)
      | Some n \<Rightarrow>
          if length (Body w1) + length bytes \<le> n then (True, w1\<lparr>Body := Body w1 @ bytes\<rparr>)
          else (False, w1\<lparr>Body := take n (Body w1 @ bytes)\<rparr>))"

text \<open>\<open>http.Error\<close>: a plain-text reply with the given status and the message as a line.\<close>

definition http_Error :: "string \<Rightarrow> nat \<Rightarrow> ResponseWriter \<Rightarrow> ResponseWriter" where
  "http_Error msg code w =
     snd (Write (msg @ ''\<newline>'')
       (WriteHeader code
         (Header_Set ''X-Content-Type-Options'' ''nosniff''
           (Header_Set ''Content-Type'' ''text/plain; charset=utf-8''
             (Header_Del ''Content-Length'' w)))))"

section \<open>Streaming a file: \<open>streamHandler\<close>\<close>

text \<open>
  \<open>getFileToStream\<close>: the file at the index when the index is within the list; otherwise
  the loop over the files keeps the first file that is longer than every file before it and
  longer than zero.  \<open>None\<close> stands for \<open>nil\<close>.
\<close>

definition largest_step :: "tfile \<Rightarrow> tfile option \<times> int \<Rightarrow> tfile option \<times> int" where
  "largest_step file s =
     (case s of (largestFile, largestSize) \<Rightarrow>
        if Length file > largestSize then (Some file, Length file) else (largestFile, largestSize))"

definition getFileToStream :: "Torrent \<Rightarrow> int \<Rightarrow> tfile option" where
  "getFileToStream t index =
     (let files = Files t in
      if index \<ge> 0 \<and> index < int (length files) then Some (files ! nat index)
      else fst (fold largest_step files (None, 0)))"

definition getContentType :: "string \<Rightarrow> string" where
  "getContentType filename =
     (if HasSuffix filename ''.mp4'' then ''video/mp4''
      else if HasSuffix filename ''.mkv'' then ''video/x-matroska''
      else ''application/octet-stream'')"

text \<open>\<open>filepath.Base\<close>: the last element of the path, trailing separators removed.\<close>

definition Base :: "string \<Rightarrow> string" where
  "Base p =
     (if p = [] then ''.''
      else let q = dropWhile (\<lambda>c. c = CHR ''/'') (rev p);
               b = rev (takeWhile (\<lambda>c. c \<noteq> CHR ''/'') q)
           in if b = [] then ''/'' else b)"

text \<open>
  \<open>url.QueryEscape\<close>: letters, digits and the characters \<open>-_.~\<close> stay, a space becomes
  \<open>+\<close>, every other byte becomes \<open>%\<close> and its two hexadecimal digits.
\<close>

definition QueryEscape :: "string \<Rightarrow> string" where
  "QueryEscape s =
     concat (map (\<lambda>c.
        if c \<in> set ''abcdefghijklmnopqrstuvwxyzABCDEFGHIJKLMNOPQRSTUVWXYZ0123456789-_.~'' then [c]
        else if c = CHR '' '' then ''+''
        else [CHR ''%'', ''0123456789ABCDEF'' ! (of_char c div 16),
              ''0123456789ABCDEF'' ! (of_char c mod 16)]) s)"

text \<open>
  The reader of a file (\<open>file.NewReader()\<close>).  A read at a position delivers the requested
  bytes as far as the file has them; at the end of the file it delivers nothing and reports
  the end; from the offset \<open>bad_from\<close> on it fails with another error, after the bytes before
  that offset.  A seek to a negative offset fails.
\<close>

datatype read_error = NoError | EOF | ReadFailed

definition reader_Read :: "tfile \<Rightarrow> nat \<Rightarrow> nat \<Rightarrow> string \<times> read_error" where
  "reader_Read file pos n =
     (let got = take n (drop pos (contents file)) in
      case bad_from file of
        None \<Rightarrow> (got, if got = [] then EOF else NoError)
      | Some k \<Rightarrow>
          if pos + length got \<le> k then (got, if got = [] then EOF else NoError)
          else (take (k - pos) got, ReadFailed))"

text \<open>
  The streaming loop of \<open>streamHandler\<close>, with its buffer of 512 KiB: \<open>pos\<close> is the
  position of the reader and \<open>bytesWritten\<close> the counter of the source.
\<close>

definition buf_len :: int where
  "buf_len = 1024 * 512"

function stream_loop :: "tfile \<Rightarrow> nat \<Rightarrow> int \<Rightarrow> int \<Rightarrow> ResponseWriter \<Rightarrow> ResponseWriter" where
  "stream_loop file pos contentLength bytesWritten w =
     (if bytesWritten < contentLength then
        let bytesToRead = (if buf_len < contentLength - bytesWritten then buf_len
                           else contentLength - bytesWritten)
        in (case reader_Read file pos (nat bytesToRead) of
              (bytes, err) \<Rightarrow>
                if bytes \<noteq> [] then
                  (case Write bytes w of
                     (False, w1) \<Rightarrow> w1
                   | (True, w1) \<Rightarrow>
                       if err \<noteq> NoError then w1
                       else stream_loop file (pos + length bytes) contentLength
                              (bytesWritten + int (length bytes)) w1)
                else if err \<noteq> NoError then w
                else stream_loop file pos contentLength bytesWritten w)
      else w)"
  by pat_completeness auto
termination
  apply (relation "measure (\<lambda>(f, pos, contentLength, bytesWritten, w). nat (contentLength - bytesWritten))")
    apply simp
  subgoal by (auto simp: neq_Nil_conv)
  subgoal by (auto simp: reader_Read_def Let_def split: option.splits if_splits)
  done

declare stream_loop.simps [simp del]

text \<open>
  The part of \<open>streamHandler\<close> that follows the selection of the file: the headers, the
  range, the status, the seek and the loop.  The headers \<open>Content-Type\<close> and
  \<open>Content-Length\<close> are set after the status has been written.
\<close>

definition streamFile :: "tfile \<Rightarrow> Request \<Rightarrow> ResponseWriter \<Rightarrow> ResponseWriter" where
  "streamFile file r w =
     (let filename = Base (DisplayPath file);
          fileSize = Length file;
          contentType = getContentType filename;
          w1 = Header_Set ''Content-Disposition''
                 (''inline; filename='' @ [CHR 0x22] @ filename @ [CHR 0x22]
                    @ ''; filename*=UTF-8'' @ [CHR 0x27, CHR 0x27] @ QueryEscape filename) w;
          w2 = Header_Set ''X-Filename'' filename w1;
          w3 = Header_Set ''X-Filesize'' (FormatInt fileSize) w2;
          w4 = Header_Set ''X-Content-Type'' contentType w3;
          w5 = Header_Set ''Accept-Ranges'' ''bytes'' w4;
          rangeHeader = Header_Get r ''Range'';
          (start, contentLength, w6) =
            (if rangeHeader \<noteq> [] then
               let (start, end0) = Sscanf_range rangeHeader;
                   end = (if end0 = 0 \<or> end0 \<ge> fileSize then fileSize - 1 else end0);
                   contentLength = wrap64 (end - start + 1)
               in (start, contentLength,
                   WriteHeader 206
                     (Header_Set ''Content-Range''
                        (''bytes '' @ FormatInt start @ ''-'' @ FormatInt end @ ''/''
                           @ FormatInt fileSize) w5))
             else (0, fileSize, WriteHeader 200 w5));
          w7 = Header_Set ''Content-Type'' contentType w6;
          w8 = Header_Set ''Content-Length'' (FormatInt contentLength) w7
      in if start < 0 then http_Error ''Error seeking in file'' 500 w8
         else stream_loop file (nat start) contentLength 0 w8)"

definition streamHandler ::
  "Env \<Rightarrow> Request \<Rightarrow> ResponseWriter \<Rightarrow> TorrentClient \<Rightarrow> ResponseWriter \<times> TorrentClient" where
  "streamHandler env r w tc =
     (let magnetLink = Query_Get r ''url'' in
      if magnetLink = [] then (http_Error ''Missing 'url' query parameter'' 400 w, tc)
      else
        (case getTorrentFromMagnet env magnetLink tc of
           (Inl err, tc1) \<Rightarrow> (http_Error (Error err) 500 w, tc1)
         | (Inr t, tc1) \<Rightarrow>
             if length (Files t) = 0 then (http_Error ''No files in torrent'' 404 w, tc1)
             else
               let index = (case Atoi (Query_Get r ''index'') of None \<Rightarrow> - 1 | Some i \<Rightarrow> i) in
               (case getFileToStream t index of
                  None \<Rightarrow>
                    (http_Error ''Could not find a file in the torrent to stream'' 500 w, tc1)
                | Some file \<Rightarrow> (streamFile file r w, tc1))))"

section \<open>Serving extraction outputs: \<open>serveSubtitleFileHandler\<close>\<close>

text \<open>
  The handler answers either with \<open>http.Error\<close> (a status and a message) or hands
  the joined path to \<open>http.ServeFile\<close>.  The request's URL path is \<open>/subtitles\<close>, the
  file name travels in the query string, so \<open>ServeFile\<close>'s own refusal of \<open>..\<close> in
  the URL path never applies; the path it is given is the path it serves.
\<close>

datatype subtitle_reply = HttpError nat string | ServedFile string

definition serveSubtitleFileHandler :: "TorrentClient \<Rightarrow> string \<Rightarrow> subtitle_reply" where
  "serveSubtitleFileHandler tc fileName =
     (if fileName = [] then HttpError 400 ''Missing 'file' query parameter''
      else
        let filePath = Join [downloadDir tc, fileName] in
        if \<not> HasPrefix (Clean filePath) (downloadDir tc) then HttpError 400 ''Invalid file path''
        else ServedFile filePath)"

text \<open>A path lies inside a directory when it is the directory or continues it after a separator.\<close>

definition inside_dir :: "string \<Rightarrow> string \<Rightarrow> bool" where
  "inside_dir dir p = (p = dir \<or> prefix (dir @ ''/'') p)"

section \<open>Example values\<close>

text \<open>
  Concrete collaborators and a concrete client, used to evaluate the functions above on
  examples.  The example parser reads the info hash after the prefix
  \<open>magnet:?xt=urn:btih:\<close>; in the example world the info never arrives, the context is
  never cancelled, and stored metadata cannot be decoded.
\<close>

definition demo_env :: Env where
  "demo_env =
     \<lparr>ParseMagnetURI =
        (\<lambda>l. if prefix ''magnet:?xt=urn:btih:'' l then Inr (drop 20 l)
             else Inl ''missing magnet URI scheme''),
      metainfo_Load = (\<lambda>b. Inl ''bad metainfo''),
      AddTorrent_error = (\<lambda>mi. None),
      AddMagnet_error = (\<lambda>l. None),
      swarm = (\<lambda>l. \<lparr>mi_Name = ''demo'', mi_InfoHash = drop 20 l, mi_Files = []\<rparr>),
      info_after = (\<lambda>l. None),
      done_after = None,
      ctx_Err = ''context canceled'',
      pick = hd,
      mi_Write = (\<lambda>mi. Inr (mi_Name mi))\<rparr>"

definition demo_client :: TorrentClient where
  "demo_client =
     \<lparr>client = \<lparr>next_handle = 7, dropped = [], AddMagnet_calls = 0, AddTorrent_calls = 0\<rparr>,
      cache = [],
      db = \<lparr>rows = [], Get_calls = 0\<rparr>,
      downloadDir = ''/data/dl'',
      vttFileMap = [],
      port = 3000,
      disk = [],
      written = [],
      clock = 1000\<rparr>"

definition demo_entry :: "nat \<Rightarrow> string \<Rightarrow> int \<Rightarrow> cacheEntry" where
  "demo_entry h k t =
     \<lparr>torrent = \<lparr>handle = h, Name = ''demo'', InfoHash = k, Files = []\<rparr>,
      prevBytesRead = 0, prevReadTime = t, lastAccessed = t\<rparr>"

text \<open>The example collaborators, with the info arriving after the given number of nanoseconds.\<close>

definition demo_env_info :: "nat \<Rightarrow> Env" where
  "demo_env_info d = demo_env\<lparr>info_after := (\<lambda>l. Some d)\<rparr>"

text \<open>
  A torrent with two files, a client that has it in its cache, and a fresh response writer
  whose client stays connected.
\<close>

definition demo_torrent :: Torrent where
  "demo_torrent =
     \<lparr>handle = 1, Name = ''demo'', InfoHash = ''aa'',
      Files = [\<lparr>DisplayPath = ''demo/a.srt'', contents = ''abc'', bad_from = None\<rparr>,
               \<lparr>DisplayPath = ''demo/b.mkv'', contents = ''hello'', bad_from = None\<rparr>]\<rparr>"

definition demo_streaming_client :: TorrentClient where
  "demo_streaming_client =
     demo_client
       \<lparr>cache := [(''aa'', \<lparr>torrent = demo_torrent, prevBytesRead = 0, prevReadTime = 400,
                             lastAccessed = 400\<rparr>)]\<rparr>"

definition demo_writer :: ResponseWriter where
  "demo_writer = \<lparr>Header = [], Code = 0, Sent = [], Body = [], accepts = None\<rparr>"

section \<open>Properties of the subtitle conversion\<close>

lemma ReplaceAll_Nil: "old \<noteq> [] \<Longrightarrow> ReplaceAll [] old new = []"
  by (simp add: ReplaceAll.simps)

lemma ReplaceAll_char: "ReplaceAll s [a] [b] = map (\<lambda>c. if c = a then b else c) s"
proof (induction s)
  case Nil
  show ?case by (simp add: ReplaceAll.simps)
next
  case (Cons c s)
  then show ?case by (subst ReplaceAll.simps) auto
qed

lemma ReplaceAll_crlf_skip:
  "CHR 0x0D \<notin> set l \<Longrightarrow>
   ReplaceAll (l @ rest) [CHR 0x0D, CHR 0x0A] ''\<newline>'' = l @ ReplaceAll rest [CHR 0x0D, CHR 0x0A] ''\<newline>''"
proof (induction l)
  case Nil
  show ?case by simp
next
  case (Cons c l)
  then show ?case by (subst ReplaceAll.simps) auto
qed

lemma ReplaceAll_crlf_hit:
  "ReplaceAll (CHR 0x0D # CHR 0x0A # rest) [CHR 0x0D, CHR 0x0A] ''\<newline>''
     = CHR 0x0A # ReplaceAll rest [CHR 0x0D, CHR 0x0A] ''\<newline>''"
  by (subst ReplaceAll.simps) simp

lemma ReplaceAll_lf:
  "ReplaceAll (CHR 0x0A # rest) [CHR 0x0D, CHR 0x0A] ''\<newline>''
     = CHR 0x0A # ReplaceAll rest [CHR 0x0D, CHR 0x0A] ''\<newline>''"
  by (subst ReplaceAll.simps) simp

lemma normalise_eol:
  assumes "eol = ''\<newline>'' \<or> eol = [CHR 0x0D, CHR 0x0A]"
  shows "ReplaceAll (eol @ rest) [CHR 0x0D, CHR 0x0A] ''\<newline>''
           = CHR 0x0A # ReplaceAll rest [CHR 0x0D, CHR 0x0A] ''\<newline>''"
  using assms by (auto simp: ReplaceAll_crlf_hit ReplaceAll_lf)

lemma normalise_lines:
  assumes "eol = ''\<newline>'' \<or> eol = [CHR 0x0D, CHR 0x0A]" and "list_all wf_line b"
  shows "ReplaceAll (concat (map (\<lambda>l. l @ eol) b) @ rest) [CHR 0x0D, CHR 0x0A] ''\<newline>''
           = concat (map (\<lambda>l. l @ ''\<newline>'') b) @ ReplaceAll rest [CHR 0x0D, CHR 0x0A] ''\<newline>''"
  using assms(2)
proof (induction b)
  case Nil
  show ?case by simp
next
  case (Cons l b)
  from Cons.prems have wl: "wf_line l" and b: "list_all wf_line b"
    by simp_all
  from wl have l: "CHR 0x0D \<notin> set l"
    by (simp add: wf_line_def)
  have "ReplaceAll (concat (map (\<lambda>l. l @ eol) (l # b)) @ rest) [CHR 0x0D, CHR 0x0A] ''\<newline>''
        = ReplaceAll (l @ (eol @ (concat (map (\<lambda>l. l @ eol) b) @ rest))) [CHR 0x0D, CHR 0x0A] ''\<newline>''"
    by simp
  also have "\<dots> = l @ ReplaceAll (eol @ (concat (map (\<lambda>l. l @ eol) b) @ rest)) [CHR 0x0D, CHR 0x0A] ''\<newline>''"
    by (rule ReplaceAll_crlf_skip [OF l])
  also have "\<dots> = l @ CHR 0x0A # ReplaceAll (concat (map (\<lambda>l. l @ eol) b) @ rest) [CHR 0x0D, CHR 0x0A] ''\<newline>''"
    by (simp only: normalise_eol [OF assms(1)])
  finally show ?case using Cons.IH [OF b] by simp
qed

lemma normalise_srt:
  assumes "eol = ''\<newline>'' \<or> eol = [CHR 0x0D, CHR 0x0A]" and "list_all srt_block blocks"
  shows "ReplaceAll (render_srt eol blocks) [CHR 0x0D, CHR 0x0A] ''\<newline>'' = render_srt ''\<newline>'' blocks"
  using assms(2)
proof (induction blocks)
  case Nil
  show ?case by (simp add: render_srt_def ReplaceAll_Nil)
next
  case (Cons b blocks)
  from Cons.prems have wb: "srt_block b" and bs: "list_all srt_block blocks"
    by simp_all
  from wb have b: "list_all wf_line b"
    by (simp add: srt_block_def)
  have "ReplaceAll (render_srt eol (b # blocks)) [CHR 0x0D, CHR 0x0A] ''\<newline>''
        = ReplaceAll (concat (map (\<lambda>l. l @ eol) b) @ (eol @ render_srt eol blocks)) [CHR 0x0D, CHR 0x0A] ''\<newline>''"
    by (simp add: render_srt_def render_block_def)
  also have "\<dots> = concat (map (\<lambda>l. l @ ''\<newline>'') b) @ ReplaceAll (eol @ render_srt eol blocks) [CHR 0x0D, CHR 0x0A] ''\<newline>''"
    by (rule normalise_lines [OF assms(1) b])
  also have "\<dots> = concat (map (\<lambda>l. l @ ''\<newline>'') b) @ CHR 0x0A # render_srt ''\<newline>'' blocks"
    by (simp only: normalise_eol [OF assms(1)] Cons.IH [OF bs])
  finally show ?case by (simp add: render_srt_def render_block_def)
qed


lemma Split_line:
  "CHR 0x0A \<notin> set l \<Longrightarrow> Split (l @ CHR 0x0A # rest) ''\<newline>'' = l # Split rest ''\<newline>''"
proof (induction l)
  case Nil
  show ?case by (subst Split.simps) simp
next
  case (Cons c l)
  then show ?case by (subst Split.simps) auto
qed

lemma Split_no_sep:
  "CHR 0x0A \<notin> set l \<Longrightarrow> Split l ''\<newline>'' = [l]"
proof (induction l)
  case Nil
  show ?case by (subst Split.simps) simp
next
  case (Cons c l)
  then show ?case by (subst Split.simps) auto
qed

lemma Split_joined_lines:
  "b \<noteq> [] \<Longrightarrow> list_all wf_line b \<Longrightarrow> Split (strings_Join b ''\<newline>'') ''\<newline>'' = b"
proof (induction b "''\<newline>''" rule: strings_Join.induct)
  case 1
  then show ?case by simp
next
  case (2 x)
  then show ?case by (simp add: Split_no_sep wf_line_def)
next
  case (3 x y ys)
  then show ?case by (simp add: Split_line wf_line_def)
qed

lemma Split_block:
  "sep_free t \<Longrightarrow>
   Split (t @ CHR 0x0A # CHR 0x0A # rest) ''\<newline>\<newline>'' = t # Split rest ''\<newline>\<newline>''"
proof (induction t rule: sep_free.induct)
  case 1
  show ?case by (subst Split.simps) simp
next
  case (2 c)
  then show ?case
    by (subst Split.simps, simp, subst Split.simps, simp)
next
  case (3 c d cs)
  then show ?case by (subst Split.simps) auto
qed

lemma sep_free_line:
  "l \<noteq> [] \<Longrightarrow> CHR 0x0A \<notin> set l \<Longrightarrow> sep_free l"
  by (induction l rule: sep_free.induct) auto

lemma sep_free_line_append:
  "l \<noteq> [] \<Longrightarrow> CHR 0x0A \<notin> set l \<Longrightarrow> sep_free t \<Longrightarrow> t \<noteq> [] \<Longrightarrow> hd t \<noteq> CHR 0x0A \<Longrightarrow>
   sep_free (l @ CHR 0x0A # t)"
proof (induction l rule: sep_free.induct)
  case 1
  then show ?case by simp
next
  case (2 c)
  then show ?case by (cases t) auto
next
  case (3 c d cs)
  then show ?case by auto
qed

lemma joined_lines_head:
  "b \<noteq> [] \<Longrightarrow> list_all wf_line b \<Longrightarrow>
   strings_Join b ''\<newline>'' \<noteq> [] \<and> hd (strings_Join b ''\<newline>'') \<noteq> CHR 0x0A"
proof (induction b "''\<newline>''" rule: strings_Join.induct)
  case 1
  then show ?case by simp
next
  case (2 x)
  then show ?case by (cases x) (auto simp: wf_line_def)
next
  case (3 x y ys)
  then show ?case by (cases x) (auto simp: wf_line_def)
qed

lemma sep_free_joined_lines:
  "b \<noteq> [] \<Longrightarrow> list_all wf_line b \<Longrightarrow> sep_free (strings_Join b ''\<newline>'')"
proof (induction b "''\<newline>''" rule: strings_Join.induct)
  case 1
  then show ?case by simp
next
  case (2 x)
  then show ?case by (simp add: sep_free_line wf_line_def)
next
  case (3 x y ys)
  from "3.prems" have x: "x \<noteq> []" "CHR 0x0A \<notin> set x" and rest: "list_all wf_line (y # ys)"
    by (simp_all add: wf_line_def)
  have "sep_free (strings_Join (y # ys) ''\<newline>'')"
    using "3.hyps" rest by simp
  moreover have "strings_Join (y # ys) ''\<newline>'' \<noteq> [] \<and> hd (strings_Join (y # ys) ''\<newline>'') \<noteq> CHR 0x0A"
    using joined_lines_head [of "y # ys"] rest by simp
  ultimately have "sep_free (x @ CHR 0x0A # strings_Join (y # ys) ''\<newline>'')"
    using x by (simp add: sep_free_line_append)
  then show ?case by simp
qed

lemma render_block_joined:
  "b \<noteq> [] \<Longrightarrow> render_block ''\<newline>'' b = strings_Join b ''\<newline>'' @ ''\<newline>\<newline>''"
  unfolding render_block_def
  by (induction b "''\<newline>''" rule: strings_Join.induct) simp_all

lemma Split_rendered:
  "list_all srt_block blocks \<Longrightarrow>
   Split (render_srt ''\<newline>'' blocks) ''\<newline>\<newline>''
     = map (\<lambda>b. strings_Join b ''\<newline>'') blocks @ [[]]"
proof (induction blocks)
  case Nil
  show ?case by (simp add: render_srt_def Split.simps)
next
  case (Cons b blocks)
  from Cons.prems have wb: "srt_block b" and bs: "list_all srt_block blocks"
    by simp_all
  from wb have ne: "b \<noteq> []" and wl: "list_all wf_line b"
    by (simp_all add: srt_block_def)
  have "render_srt ''\<newline>'' (b # blocks)
        = strings_Join b ''\<newline>'' @ CHR 0x0A # CHR 0x0A # render_srt ''\<newline>'' blocks"
    by (simp add: render_srt_def render_block_joined [OF ne])
  then show ?case
    using Split_block [OF sep_free_joined_lines [OF ne wl]] Cons.IH [OF bs] by simp
qed


lemma prefix_within_line:
  assumes "prefix q (l @ r)" and "l \<noteq> []" and "r = [] \<or> hd r = CHR 0x0A"
    and "CHR 0x0A \<notin> set (tl q)"
  shows "prefix q l"
proof -
  from assms(1) consider "prefix q l" | us where "q = l @ us" and "prefix us r"
    by (auto simp: prefix_append)
  then show ?thesis
  proof cases
    case 1
    then show ?thesis .
  next
    case 2
    show ?thesis
    proof (cases us)
      case Nil
      with 2 show ?thesis by simp
    next
      case (Cons u us')
      with 2 assms(3) have "u = CHR 0x0A"
        by (cases r) auto
      with 2 Cons assms(2) have "CHR 0x0A \<in> set (tl q)"
        by (cases l) auto
      with assms(4) show ?thesis by simp
    qed
  qed
qed

lemma space_runes_tl:
  "\<forall>q \<in> set space_runes. q \<noteq> [] \<and> CHR 0x0A \<notin> set (tl q) \<and> CHR 0x0A \<notin> set (tl (rev q))"
  by (simp add: space_runes_def)

lemma joined_lines_first:
  "b \<noteq> [] \<Longrightarrow> \<exists>r. strings_Join b ''\<newline>'' = hd b @ r \<and> (r = [] \<or> hd r = CHR 0x0A)"
  by (cases "(b, ''\<newline>'')" rule: strings_Join.cases) auto

lemma joined_lines_last:
  "b \<noteq> [] \<Longrightarrow> \<exists>p. strings_Join b ''\<newline>'' = p @ last b \<and> (p = [] \<or> last p = CHR 0x0A)"
proof (induction b "''\<newline>''" rule: strings_Join.induct)
  case 1
  then show ?case by simp
next
  case (2 x)
  show ?case by simp
next
  case (3 x y ys)
  then obtain p where p: "strings_Join (y # ys) ''\<newline>'' = p @ last (y # ys)"
    and pl: "p = [] \<or> last p = CHR 0x0A"
    by auto
  have "strings_Join (x # y # ys) ''\<newline>'' = (x @ CHR 0x0A # p) @ last (x # y # ys)"
    using p by simp
  moreover have "last (x @ CHR 0x0A # p) = CHR 0x0A"
    using pl by auto
  ultimately show ?case
    by blast
qed

lemma starts_with_space_joined:
  assumes "b \<noteq> []" and "hd b \<noteq> []" and "starts_with_space (strings_Join b ''\<newline>'')"
  shows "starts_with_space (hd b)"
proof -
  from joined_lines_first [OF assms(1)] obtain r
    where r: "strings_Join b ''\<newline>'' = hd b @ r" "r = [] \<or> hd r = CHR 0x0A"
    by blast
  from assms(3) obtain q where q: "q \<in> set space_runes" "prefix q (hd b @ r)"
    by (auto simp: starts_with_space_def list_ex_iff r(1))
  from q(1) have "CHR 0x0A \<notin> set (tl q)"
    using space_runes_tl by blast
  from q(2) assms(2) r(2) this have "prefix q (hd b)"
    by (rule prefix_within_line)
  with q(1) show ?thesis
    by (auto simp: starts_with_space_def list_ex_iff)
qed

lemma ends_with_space_joined:
  assumes "b \<noteq> []" and "last b \<noteq> []" and "ends_with_space (strings_Join b ''\<newline>'')"
  shows "ends_with_space (last b)"
proof -
  from joined_lines_last [OF assms(1)] obtain p
    where p: "strings_Join b ''\<newline>'' = p @ last b" "p = [] \<or> last p = CHR 0x0A"
    by blast
  from assms(3) obtain q where q: "q \<in> set space_runes" "prefix (rev q) (rev (last b) @ rev p)"
    by (auto simp: ends_with_space_def list_ex_iff p(1))
  from q(1) have "CHR 0x0A \<notin> set (tl (rev q))"
    using space_runes_tl by blast
  moreover have "rev p = [] \<or> hd (rev p) = CHR 0x0A"
    using p(2) by (auto simp: hd_rev)
  moreover have "rev (last b) \<noteq> []"
    using assms(2) by simp
  ultimately have "prefix (rev q) (rev (last b))"
    using q(2) prefix_within_line by blast
  with q(1) show ?thesis
    by (auto simp: ends_with_space_def list_ex_iff)
qed

lemma strip_runes_none:
  "\<not> list_ex (\<lambda>q. prefix q s) qs \<Longrightarrow> strip_runes qs s = s"
proof -
  assume "\<not> list_ex (\<lambda>q. prefix q s) qs"
  then have "space_rune_at qs s = None"
    by (auto simp: space_rune_at_def find_None_iff list_ex_iff)
  then show ?thesis
    by (subst strip_runes.simps) simp
qed

lemma TrimSpace_clean:
  assumes "\<not> starts_with_space s" and "\<not> ends_with_space s"
  shows "TrimSpace s = s"
proof -
  have "strip_runes space_runes s = s"
    using assms(1) by (simp add: strip_runes_none starts_with_space_def)
  moreover have "strip_runes (map rev space_runes) (rev s) = rev s"
    using assms(2) by (intro strip_runes_none) (simp add: ends_with_space_def list_ex_iff)
  ultimately show ?thesis
    by (simp add: TrimSpace_def)
qed

lemma TrimSpace_block:
  assumes "srt_block b" and "outer_trimmed b"
  shows "TrimSpace (strings_Join b ''\<newline>'') = strings_Join b ''\<newline>''"
proof -
  from assms have ne: "b \<noteq> []" and wl: "list_all wf_line b"
    and s: "\<not> starts_with_space (hd b)" and e: "\<not> ends_with_space (last b)"
    by (simp_all add: srt_block_def outer_trimmed_def)
  from ne wl have "hd b \<noteq> []" and "last b \<noteq> []"
    by (auto simp: list_all_iff wf_line_def)
  then show ?thesis
    using starts_with_space_joined [OF ne] ends_with_space_joined [OF ne] s e
    by (intro TrimSpace_clean) blast+
qed

lemma trim_block_id:
  assumes "srt_block b" and "outer_trimmed b"
  shows "trim_block b = b"
proof -
  from assms(1) have ne: "b \<noteq> []" and wl: "list_all wf_line b"
    by (simp_all add: srt_block_def)
  show ?thesis
    by (simp add: trim_block_def TrimSpace_block [OF assms] Split_joined_lines [OF ne wl])
qed

lemma timeLineIndex_None:
  "timeLineIndex b = None \<Longrightarrow> dropWhile (\<lambda>l. \<not> Contains l ''-->'') b = []"
  by (induction b) (auto split: if_splits)

lemma timeLineIndex_Some:
  "timeLineIndex b = Some i \<Longrightarrow>
   i < length b \<and> dropWhile (\<lambda>l. \<not> Contains l ''-->'') b = b ! i # drop (Suc i) b"
  by (induction b arbitrary: i) (auto split: if_splits)

lemma write_block_empty: "write_block vtt [] = vtt"
  by (simp add: write_block_def TrimSpace_def strip_runes.simps space_rune_at_def space_runes_def)

lemma cue_of_no_lines: "cue_of_block (Split [] ''\<newline>'') = []"
  by (simp add: cue_of_block_def Split.simps)

lemma write_block_cue:
  "write_block vtt (strings_Join b ''\<newline>'') = vtt @ cue_of_block (trim_block b)"
proof (cases "TrimSpace (strings_Join b ''\<newline>'') = []")
  case True
  then show ?thesis
    by (simp add: write_block_def trim_block_def cue_of_no_lines)
next
  case n: False
  show ?thesis
  proof (cases "timeLineIndex (trim_block b)")
    case None
    then show ?thesis
      using timeLineIndex_None [OF None] n
      by (simp add: write_block_def Let_def trim_block_def cue_of_block_def
          del: dropWhile_eq_Nil_conv)
  next
    case (Some i)
    then show ?thesis
      using timeLineIndex_Some [OF Some] n
      by (simp add: write_block_def Let_def trim_block_def cue_of_block_def ReplaceAll_char)
  qed
qed

lemma foldl_write_block:
  "foldl write_block vtt (map (\<lambda>b. strings_Join b ''\<newline>'') blocks)
     = vtt @ concat (map cue_of_block (map trim_block blocks))"
proof (induction blocks arbitrary: vtt)
  case Nil
  show ?case by simp
next
  case (Cons b blocks)
  then show ?case by (simp add: write_block_cue)
qed

lemma srtToVtt_rendered:
  assumes "list_all srt_block blocks" and "eol = ''\<newline>'' \<or> eol = [CHR 0x0D, CHR 0x0A]"
  shows "srtToVtt (render_srt eol blocks) = vtt_of_blocks (map trim_block blocks)"
  by (simp add: srtToVtt_def normalise_srt [OF assms(2) assms(1)] Split_rendered [OF assms(1)]
      foldl_write_block write_block_empty vtt_of_blocks_def)

text \<open>
  C5, as stated, does not hold of \<open>srtToVtt\<close>: the function trims every block with
  \<open>strings.TrimSpace\<close> before it cuts the block into lines, so white space at the end of a
  block's last text line (or at the start of its first line) is not emitted.  The
  block-structured input \<open>1\n00:00:01,000 --> 00:00:02,000\nHello \n\n\<close>, whose text line is
  \<open>Hello\<close> followed by a space, is converted to a cue whose text line is \<open>Hello\<close> without
  the space, whereas the claimed conversion emits the block's text line as it is.
\<close>

theorem srtToVtt_drops_trailing_space:
  "list_all srt_block [[''1'', ''00:00:01,000 --> 00:00:02,000'', ''Hello '']]
   \<and> render_srt ''\<newline>'' [[''1'', ''00:00:01,000 --> 00:00:02,000'', ''Hello '']]
       = ''1\<newline>00:00:01,000 --> 00:00:02,000\<newline>Hello \<newline>\<newline>''
   \<and> srtToVtt ''1\<newline>00:00:01,000 --> 00:00:02,000\<newline>Hello \<newline>\<newline>''
       = ''WEBVTT\<newline>\<newline>00:00:01.000 --> 00:00:02.000\<newline>Hello\<newline>\<newline>''
   \<and> vtt_of_blocks [[''1'', ''00:00:01,000 --> 00:00:02,000'', ''Hello '']]
       = ''WEBVTT\<newline>\<newline>00:00:01.000 --> 00:00:02.000\<newline>Hello \<newline>\<newline>''
   \<and> srtToVtt (render_srt ''\<newline>'' [[''1'', ''00:00:01,000 --> 00:00:02,000'', ''Hello '']])
       \<noteq> vtt_of_blocks [[''1'', ''00:00:01,000 --> 00:00:02,000'', ''Hello '']]"
  by (simp add: srt_block_def wf_line_def render_srt_def render_block_def vtt_of_blocks_def
      cue_of_block_def srtToVtt_def write_block_def TrimSpace_def space_rune_at_def
      space_runes_def ReplaceAll.simps Split.simps strip_runes.simps)

text \<open>
  C5, amended.  For every input in block-structured subtitle format, with line terminator LF
  or CRLF, \<open>srtToVtt\<close> emits the fixed header and then, block by block in the input's order,
  the conversion of the block after the white space around the block has been removed: the
  first line containing \<open>-->\<close> with every comma replaced by a period, the lines after it and
  a blank terminator; a block without such a line is dropped.  When no block has white space
  at the start of its first line or at the end of its last line, nothing is removed and the
  output is the conversion of the blocks as they stand.  In particular the input
  \<open>1\n00:00:01,000 --> 00:00:02,000\nHello\n\n\<close> converts to the header, a blank line, the
  line \<open>00:00:01.000 --> 00:00:02.000\<close>, the line \<open>Hello\<close> and a trailing blank line.
\<close>

theorem srtToVtt_block_structured:
  assumes "list_all srt_block blocks" and "eol = ''\<newline>'' \<or> eol = [CHR 0x0D, CHR 0x0A]"
  shows "srtToVtt (render_srt eol blocks) = vtt_of_blocks (map trim_block blocks)
       \<and> (list_all outer_trimmed blocks \<longrightarrow>
            srtToVtt (render_srt eol blocks) = vtt_of_blocks blocks)
       \<and> srtToVtt ''1\<newline>00:00:01,000 --> 00:00:02,000\<newline>Hello\<newline>\<newline>''
           = ''WEBVTT\<newline>\<newline>00:00:01.000 --> 00:00:02.000\<newline>Hello\<newline>\<newline>''"
proof (intro conjI impI)
  show g: "srtToVtt (render_srt eol blocks) = vtt_of_blocks (map trim_block blocks)"
    by (rule srtToVtt_rendered [OF assms])
  show "srtToVtt (render_srt eol blocks) = vtt_of_blocks blocks"
    if "list_all outer_trimmed blocks"
  proof -
    have "map trim_block blocks = blocks"
      using assms(1) that by (intro map_idI) (simp add: list_all_iff trim_block_id)
    with g show ?thesis
      by simp
  qed
  show "srtToVtt ''1\<newline>00:00:01,000 --> 00:00:02,000\<newline>Hello\<newline>\<newline>''
           = ''WEBVTT\<newline>\<newline>00:00:01.000 --> 00:00:02.000\<newline>Hello\<newline>\<newline>''"
    by (simp add: srtToVtt_def write_block_def TrimSpace_def space_rune_at_def space_runes_def
        ReplaceAll.simps Split.simps strip_runes.simps)
qed

theorem srtToVtt_block_structured_witness:
  "(list_all srt_block
      [[''1'', ''00:00:01,000 --> 00:00:02,000'', ''Hello''], [''note''],
       [''2'', ''00:00:03,500 --> 00:00:04,000'', ''a, b'', ''c'']]
    \<and> list_all outer_trimmed
      [[''1'', ''00:00:01,000 --> 00:00:02,000'', ''Hello''], [''note''],
       [''2'', ''00:00:03,500 --> 00:00:04,000'', ''a, b'', ''c'']]
    \<and> srtToVtt
        (render_srt [CHR 0x0D, CHR 0x0A]
           [[''1'', ''00:00:01,000 --> 00:00:02,000'', ''Hello''], [''note''],
            [''2'', ''00:00:03,500 --> 00:00:04,000'', ''a, b'', ''c'']])
      = ''WEBVTT\<newline>\<newline>00:00:01.000 --> 00:00:02.000\<newline>Hello\<newline>\<newline>00:00:03.500 --> 00:00:04.000\<newline>a, b\<newline>c\<newline>\<newline>'')
   \<and> (list_all srt_block
        [[''1'', '' 00:00:01,000 --> 00:00:02,000'', ''Hello ''], ['' '', ''  ''],
         [''  '', ''2'', ''00:00:03,500 --> 00:00:04,000'', ''bye'', '' '']]
      \<and> srtToVtt
          (render_srt ''\<newline>''
             [[''1'', '' 00:00:01,000 --> 00:00:02,000'', ''Hello ''], ['' '', ''  ''],
              [''  '', ''2'', ''00:00:03,500 --> 00:00:04,000'', ''bye'', '' '']])
        = ''WEBVTT\<newline>\<newline> 00:00:01.000 --> 00:00:02.000\<newline>Hello\<newline>\<newline>00:00:03.500 --> 00:00:04.000\<newline>bye\<newline>\<newline>'')"
proof -
  let ?A = "[[''1'', ''00:00:01,000 --> 00:00:02,000'', ''Hello''], [''note''],
             [''2'', ''00:00:03,500 --> 00:00:04,000'', ''a, b'', ''c'']]"
  let ?B = "[[''1'', '' 00:00:01,000 --> 00:00:02,000'', ''Hello ''], ['' '', ''  ''],
             [''  '', ''2'', ''00:00:03,500 --> 00:00:04,000'', ''bye'', '' '']]"
  have fa: "list_all srt_block ?A" and fb: "list_all srt_block ?B"
    by (simp_all add: srt_block_def wf_line_def)
  have ta: "list_all outer_trimmed ?A"
    by (simp add: outer_trimmed_def starts_with_space_def ends_with_space_def space_runes_def)
  have va: "vtt_of_blocks ?A
     = ''WEBVTT\<newline>\<newline>00:00:01.000 --> 00:00:02.000\<newline>Hello\<newline>\<newline>00:00:03.500 --> 00:00:04.000\<newline>a, b\<newline>c\<newline>\<newline>''"
    by (simp add: vtt_of_blocks_def cue_of_block_def)
  have vb: "vtt_of_blocks (map trim_block ?B)
     = ''WEBVTT\<newline>\<newline> 00:00:01.000 --> 00:00:02.000\<newline>Hello\<newline>\<newline>00:00:03.500 --> 00:00:04.000\<newline>bye\<newline>\<newline>''"
    by (simp add: vtt_of_blocks_def cue_of_block_def trim_block_def TrimSpace_def
        space_rune_at_def space_runes_def Split.simps strip_runes.simps)
  from srtToVtt_block_structured [OF fa, of "[CHR 0x0D, CHR 0x0A]"] ta
  have a: "srtToVtt (render_srt [CHR 0x0D, CHR 0x0A] ?A) = vtt_of_blocks ?A"
    by blast
  from srtToVtt_block_structured [OF fb, of "''\<newline>''"]
  have b: "srtToVtt (render_srt ''\<newline>'' ?B) = vtt_of_blocks (map trim_block ?B)"
    by blast
  from fa ta fb show ?thesis
    unfolding a b va vb by blast
qed

section \<open>Properties of the client's state operations\<close>

lemma cache_Get_hit:
  "map_of (cache tc) k = Some e \<Longrightarrow>
   cache_Get k tc = (Some e, tc\<lparr>cache := (k, e) # AList.delete k (cache tc)\<rparr>)"
  by (simp add: cache_Get_def)

lemma cache_Get_miss:
  "map_of (cache tc) k = None \<Longrightarrow> cache_Get k tc = (None, tc)"
  by (simp add: cache_Get_def)

lemma set_lastAccessed_front:
  "set_lastAccessed k now (tc\<lparr>cache := (k, e) # AList.delete k xs\<rparr>)
     = tc\<lparr>cache := (k, e\<lparr>lastAccessed := now\<rparr>) # AList.delete k xs\<rparr>"
proof -
  have "map (\<lambda>(k', e). if k' = k then (k', e\<lparr>lastAccessed := now\<rparr>) else (k', e)) (AList.delete k xs)
          = AList.delete k xs"
    by (induction xs) auto
  then show ?thesis
    by (simp add: set_lastAccessed_def)
qed

lemma fold_os_Remove:
  "fold os_Remove ps tc = tc\<lparr>disk := fold AList.delete ps (disk tc)\<rparr>"
  by (induction ps arbitrary: tc) (simp_all add: os_Remove_def)

lemma remove_matches_disk:
  "remove_matches pattern tc = tc\<lparr>disk := fold AList.delete (Glob (disk tc) pattern) (disk tc)\<rparr>"
  by (simp add: remove_matches_def fold_os_Remove)

lemma cleanup_fields [simp]:
  "cache (cleanupTorrentAssociatedFiles h tc) = cache tc"
  "client (cleanupTorrentAssociatedFiles h tc) = client tc"
  "db (cleanupTorrentAssociatedFiles h tc) = db tc"
  "downloadDir (cleanupTorrentAssociatedFiles h tc) = downloadDir tc"
  "written (cleanupTorrentAssociatedFiles h tc) = written tc"
  "clock (cleanupTorrentAssociatedFiles h tc) = clock tc"
  "port (cleanupTorrentAssociatedFiles h tc) = port tc"
  by (simp_all add: cleanupTorrentAssociatedFiles_def Let_def fold_os_Remove remove_matches_disk
      del: Join.simps)

lemma onEvicted_fields [simp]:
  "cache (onEvicted e tc) = cache tc"
  "client (onEvicted e tc) = (client tc)\<lparr>dropped := dropped (client tc) @ [handle (torrent e)]\<rparr>"
  "db (onEvicted e tc) = db tc"
  "downloadDir (onEvicted e tc) = downloadDir tc"
  "written (onEvicted e tc) = written tc"
  "clock (onEvicted e tc) = clock tc"
  "port (onEvicted e tc) = port tc"
  by (simp_all add: onEvicted_def Drop_def)

lemma cache_Add_hit:
  "map_of (cache (cache_Add k entry tc)) k = Some entry"
  by (cases "cache tc") (auto simp: cache_Add_def Let_def cache_size_def split: option.splits)

lemma cache_Add_fields [simp]:
  "clock (cache_Add k e tc) = clock tc"
  "db (cache_Add k e tc) = db tc"
  "downloadDir (cache_Add k e tc) = downloadDir tc"
  "written (cache_Add k e tc) = written tc"
  by (simp_all add: cache_Add_def Let_def split: option.splits)

lemma map_of_front:
  "map_of ((k, e) # AList.delete k xs) = (map_of xs)(k \<mapsto> e)"
  by (rule ext) (simp add: AList.delete_conv)

section \<open>Properties of \<open>getTorrentFromMagnet\<close>\<close>

lemma hot_path:
  assumes "ParseMagnetURI env magnetLink = Inr k" and "map_of (cache tc) k = Some e"
  shows "getTorrentFromMagnet env magnetLink tc
           = (Inr (torrent e),
              tc\<lparr>cache := (k, e\<lparr>lastAccessed := clock tc\<rparr>) # AList.delete k (cache tc)\<rparr>)"
  using assms
  by (simp add: getTorrentFromMagnet_def cache_Get_hit set_lastAccessed_front)

lemma resolve_caches:
  assumes "ParseMagnetURI env magnetLink = Inr k"
    and "getTorrentFromMagnet env magnetLink tc = (Inr t, tc1)"
  shows "\<exists>e. map_of (cache tc1) k = Some e \<and> torrent e = t"
proof (cases "map_of (cache tc) k")
  case (Some e)
  with assms hot_path [OF assms(1) Some] show ?thesis
    by auto
next
  case None
  have fetch: "\<exists>e. map_of (cache tc1) k = Some e \<and> torrent e = t"
    if "fetchFromMagnet env magnetLink k tc2 = (Inr t, tc1)" for tc2
    using that
    by (auto simp: fetchFromMagnet_def Let_def cache_Add_hit
        split: prod.splits sum.splits select_case.splits)
  from assms None show ?thesis
    by (auto simp: getTorrentFromMagnet_def cache_Get_miss Let_def cache_Add_hit fetch
        split: prod.splits sum.splits option.splits)
qed

lemma select_wait_first:
  assumes "select_wait info done ch = (c, d)"
  shows "d \<le> info_timeout \<and> (\<forall>i. info = Some i \<longrightarrow> d \<le> i) \<and> (\<forall>j. done = Some j \<longrightarrow> d \<le> j)
       \<and> (c = GotInfo \<longrightarrow> info = Some d) \<and> (c = CtxDone \<longrightarrow> done = Some d)
       \<and> (c = TimeAfter \<longrightarrow> d = info_timeout)"
  using assms
  by (cases info; cases "done")
     (auto simp: select_wait_def Let_def List.map_filter_simps min_def split: if_splits)

lemma select_wait_timeout:
  assumes "\<forall>i. info = Some i \<longrightarrow> info_timeout < i" and "\<forall>j. done = Some j \<longrightarrow> info_timeout < j"
  shows "select_wait info done ch = (TimeAfter, info_timeout)"
  using assms
  by (cases info; cases "done")
     (auto simp: select_wait_def Let_def List.map_filter_simps min_def split: if_splits)

lemma cold_path:
  assumes "ParseMagnetURI env magnetLink = Inr k" and "map_of (cache tc) k = None"
    and "case map_of (rows (db tc)) k of None \<Rightarrow> True | Some b \<Rightarrow> isl (metainfo_Load env b)"
  shows "getTorrentFromMagnet env magnetLink tc
           = fetchFromMagnet env magnetLink k (tc\<lparr>db := (db tc)\<lparr>Get_calls := Suc (Get_calls (db tc))\<rparr>\<rparr>)"
  using assms
  by (auto simp: getTorrentFromMagnet_def cache_Get_miss db_Get_def isl_def
      split: option.splits sum.splits)


lemmas eval_resolve =
  getTorrentFromMagnet_def fetchFromMagnet_def AddMagnet_def AddTorrent_def select_wait_def
  sleep_def db_Get_def db_Put_def cache_Add_def cache_Get_def set_lastAccessed_def
  info_timeout_def cache_size_def Let_def List.map_filter_simps Drop_def
  demo_env_def demo_env_info_def demo_client_def demo_entry_def

text \<open>
  C1, as stated, does not hold: on a hit, \<open>tc.cache.Get\<close> also makes the entry the most
  recently used one, so the call changes the order of the cache and with it the entry that
  the next insertion evicts.  In the example the cache holds \<open>bb\<close> (most recent) and \<open>aa\<close>;
  resolving \<open>aa\<close> returns its torrent, but the state differs from the one in which only
  \<open>lastAccessed\<close> of \<open>aa\<close> was set: the keys from oldest to newest are now \<open>bb\<close>, \<open>aa\<close>,
  and adding a third key drops the torrent of \<open>bb\<close> (handle 2) where it would have dropped
  the torrent of \<open>aa\<close> (handle 1).
\<close>

theorem getTorrentFromMagnet_moves_entry_to_front:
  "(let tc = demo_client\<lparr>cache := [(''bb'', demo_entry 2 ''bb'' 500), (''aa'', demo_entry 1 ''aa'' 400)]\<rparr>;
        (r, tc') = getTorrentFromMagnet demo_env ''magnet:?xt=urn:btih:aa'' tc;
        new = demo_entry 3 ''cc'' 1000
    in r = Inr (torrent (demo_entry 1 ''aa'' 400))
       \<and> tc' \<noteq> set_lastAccessed ''aa'' (clock tc) tc
       \<and> cache_Keys tc = [''aa'', ''bb''] \<and> cache_Keys tc' = [''bb'', ''aa'']
       \<and> dropped (client (cache_Add ''cc'' new (set_lastAccessed ''aa'' (clock tc) tc))) = [1]
       \<and> dropped (client (cache_Add ''cc'' new tc')) = [2])"
  by (simp add: getTorrentFromMagnet_def demo_env_def demo_client_def demo_entry_def
      cache_Get_def set_lastAccessed_def cache_Keys_def cache_Add_def cache_size_def Let_def)

text \<open>
  C1, amended.  When the info hash of the link is a key of the cache (hot path),
  \<open>getTorrentFromMagnet\<close> returns the torrent of the cached entry, and the state after the
  call is the state before it except for the cache, where the entry has its \<open>lastAccessed\<close>
  set to the current time and has become the most recently used entry; every other entry is
  unchanged.  In particular the metadata store is not queried and neither \<open>AddMagnet\<close> nor
  \<open>AddTorrent\<close> is called.  If the state is the one left by an earlier call for the same
  link that returned a torrent, then the torrent returned now is that same torrent.
\<close>

theorem getTorrentFromMagnet_hot_path:
  assumes "ParseMagnetURI env magnetLink = Inr k" and "map_of (cache tc) k = Some e"
    and "getTorrentFromMagnet env magnetLink tc = (r, tc')"
  shows "r = Inr (torrent e)
       \<and> tc' = tc\<lparr>cache := (k, e\<lparr>lastAccessed := clock tc\<rparr>) # AList.delete k (cache tc)\<rparr>
       \<and> map_of (cache tc') = (map_of (cache tc))(k \<mapsto> e\<lparr>lastAccessed := clock tc\<rparr>)
       \<and> Get_calls (db tc') = Get_calls (db tc)
       \<and> AddMagnet_calls (client tc') = AddMagnet_calls (client tc)
       \<and> AddTorrent_calls (client tc') = AddTorrent_calls (client tc)
       \<and> (\<forall>env0 tc0 t. ParseMagnetURI env0 magnetLink = Inr k
              \<and> getTorrentFromMagnet env0 magnetLink tc0 = (Inr t, tc) \<longrightarrow> torrent e = t)"
proof -
  from hot_path [OF assms(1,2)] assms(3)
  have r: "r = Inr (torrent e)"
    and tc': "tc' = tc\<lparr>cache := (k, e\<lparr>lastAccessed := clock tc\<rparr>) # AList.delete k (cache tc)\<rparr>"
    by simp_all
  have first: "torrent e = t"
    if "ParseMagnetURI env0 magnetLink = Inr k"
      and "getTorrentFromMagnet env0 magnetLink tc0 = (Inr t, tc)" for env0 tc0 t
    using resolve_caches [OF that] assms(2) by auto
  have m: "map_of (cache tc') = (map_of (cache tc))(k \<mapsto> e\<lparr>lastAccessed := clock tc\<rparr>)"
    using map_of_front [of k "e\<lparr>lastAccessed := clock tc\<rparr>" "cache tc"] by (simp add: tc')
  have c: "Get_calls (db tc') = Get_calls (db tc)"
    "AddMagnet_calls (client tc') = AddMagnet_calls (client tc)"
    "AddTorrent_calls (client tc') = AddTorrent_calls (client tc)"
    by (simp_all add: tc')
  from r tc' m c first show ?thesis
    by blast
qed


theorem getTorrentFromMagnet_hot_path_witness:
  "fst (getTorrentFromMagnet (demo_env_info 5000) ''magnet:?xt=urn:btih:aa'' demo_client)
     = Inr \<lparr>handle = 7, Name = ''demo'', InfoHash = ''aa'', Files = []\<rparr>
   \<and> fst (getTorrentFromMagnet demo_env ''magnet:?xt=urn:btih:aa''
            (snd (getTorrentFromMagnet (demo_env_info 5000) ''magnet:?xt=urn:btih:aa'' demo_client)))
     = Inr \<lparr>handle = 7, Name = ''demo'', InfoHash = ''aa'', Files = []\<rparr>
   \<and> AddMagnet_calls (client (snd (getTorrentFromMagnet demo_env ''magnet:?xt=urn:btih:aa''
            (snd (getTorrentFromMagnet (demo_env_info 5000) ''magnet:?xt=urn:btih:aa'' demo_client)))))
     = 1
   \<and> Get_calls (db (snd (getTorrentFromMagnet demo_env ''magnet:?xt=urn:btih:aa''
            (snd (getTorrentFromMagnet (demo_env_info 5000) ''magnet:?xt=urn:btih:aa'' demo_client)))))
     = 1"
proof -
  let ?L = "''magnet:?xt=urn:btih:aa''"
  let ?T = "\<lparr>handle = 7, Name = ''demo'', InfoHash = ''aa'', Files = []\<rparr>"
  let ?E = "\<lparr>torrent = ?T, prevBytesRead = 0, prevReadTime = 6000, lastAccessed = 6000\<rparr>"
  let ?tc1 = "snd (getTorrentFromMagnet (demo_env_info 5000) ?L demo_client)"
  let ?second = "getTorrentFromMagnet demo_env ?L ?tc1"
  have p0: "ParseMagnetURI (demo_env_info 5000) ?L = Inr ''aa''"
    and p: "ParseMagnetURI demo_env ?L = Inr ''aa''"
    by (simp_all add: demo_env_def demo_env_info_def)
  have r1: "fst (getTorrentFromMagnet (demo_env_info 5000) ?L demo_client) = Inr ?T"
    by (simp add: eval_resolve)
  then have first: "getTorrentFromMagnet (demo_env_info 5000) ?L demo_client = (Inr ?T, ?tc1)"
    by (simp add: prod_eq_iff)
  have hit: "map_of (cache ?tc1) ''aa'' = Some ?E"
    by (simp add: eval_resolve)
  have c1: "AddMagnet_calls (client ?tc1) = 1" "Get_calls (db ?tc1) = 1"
    by (simp_all add: eval_resolve)
  have "?second = (fst ?second, snd ?second)"
    by simp
  note h = getTorrentFromMagnet_hot_path [OF p hit this]
  from h have "fst ?second = Inr (torrent ?E)"
    by simp
  moreover from h p0 first have "torrent ?E = ?T"
    by blast
  moreover from h c1 have "AddMagnet_calls (client (snd ?second)) = 1"
    and "Get_calls (db (snd ?second)) = 1"
    by simp_all
  ultimately show ?thesis
    using r1 by simp
qed

text \<open>
  C8.  On the cold path (the info hash is not in the cache, the store has no usable metadata
  for it, and the engine accepts the magnet link) the call returns after the time at which
  the first of three events happens: the info arrives, the context is cancelled, or 30
  seconds have passed.  If the case taken is the arrival of the info, the call returns the
  torrent just added; if it is the cancellation, it returns the context's error; if it is the
  timeout, then exactly 30 seconds have passed, the torrent just added is dropped, the
  timeout error is returned, the cache is as before and the rows of the metadata store are
  as before.  The timeout is the case taken whenever neither the info nor the cancellation
  comes within 30 seconds.
\<close>

theorem getTorrentFromMagnet_cold_path:
  assumes "ParseMagnetURI env magnetLink = Inr k"
    and "map_of (cache tc) k = None"
    and "case map_of (rows (db tc)) k of None \<Rightarrow> True | Some b \<Rightarrow> isl (metainfo_Load env b)"
    and "AddMagnet_error env magnetLink = None"
    and "select_wait (info_after env magnetLink) (done_after env) (pick env) = (c, d)"
    and "getTorrentFromMagnet env magnetLink tc = (r, tc')"
  shows "clock tc' = clock tc + int d
       \<and> d \<le> 30 * 1000000000
       \<and> (\<forall>i. info_after env magnetLink = Some i \<longrightarrow> d \<le> i)
       \<and> (\<forall>j. done_after env = Some j \<longrightarrow> d \<le> j)
       \<and> (c = GotInfo \<longrightarrow>
            info_after env magnetLink = Some d
            \<and> (\<exists>t. r = Inr t \<and> handle t = next_handle (client tc)))
       \<and> (c = CtxDone \<longrightarrow> done_after env = Some d \<and> r = Inl (ContextDone (ctx_Err env)))
       \<and> (c = TimeAfter \<longrightarrow>
            d = 30 * 1000000000 \<and> r = Inl InfoTimeout
            \<and> dropped (client tc') = dropped (client tc) @ [next_handle (client tc)]
            \<and> cache tc' = cache tc \<and> rows (db tc') = rows (db tc))
       \<and> ((\<forall>i. info_after env magnetLink = Some i \<longrightarrow> 30 * 1000000000 < i)
            \<and> (\<forall>j. done_after env = Some j \<longrightarrow> 30 * 1000000000 < j) \<longrightarrow> c = TimeAfter)"
proof -
  note first = select_wait_first [OF assms(5), unfolded info_timeout_def]
  have run: "(r, tc') = fetchFromMagnet env magnetLink k
                 (tc\<lparr>db := (db tc)\<lparr>Get_calls := Suc (Get_calls (db tc))\<rparr>\<rparr>)"
    using cold_path [OF assms(1-3)] assms(6) by simp
  have clk: "clock tc' = clock tc + int d"
    using run assms(4,5)
    by (cases c)
       (auto simp: fetchFromMagnet_def AddMagnet_def Let_def sleep_def Drop_def db_Put_def
        split: sum.splits)
  have got: "\<exists>t. r = Inr t \<and> handle t = next_handle (client tc)" if "c = GotInfo"
    using run assms(4,5) that
    by (auto simp: fetchFromMagnet_def AddMagnet_def Let_def)
  have cancelled: "r = Inl (ContextDone (ctx_Err env))" if "c = CtxDone"
    using run assms(4,5) that
    by (auto simp: fetchFromMagnet_def AddMagnet_def Let_def)
  have timeout: "r = Inl InfoTimeout
      \<and> dropped (client tc') = dropped (client tc) @ [next_handle (client tc)]
      \<and> cache tc' = cache tc \<and> rows (db tc') = rows (db tc)" if "c = TimeAfter"
    using run assms(4,5) that
    by (auto simp: fetchFromMagnet_def AddMagnet_def Let_def sleep_def Drop_def)
  have only: "c = TimeAfter"
    if "\<forall>i. info_after env magnetLink = Some i \<longrightarrow> 30 * 1000000000 < i"
      and "\<forall>j. done_after env = Some j \<longrightarrow> 30 * 1000000000 < j"
    using select_wait_timeout [of "info_after env magnetLink" "done_after env" "pick env"]
      that assms(5)
    by (simp add: info_timeout_def)
  from first clk got cancelled timeout only show ?thesis
    by blast
qed

theorem getTorrentFromMagnet_cold_path_witness:
  "getTorrentFromMagnet demo_env ''magnet:?xt=urn:btih:aa'' demo_client
     = (Inl InfoTimeout,
        demo_client
          \<lparr>client := \<lparr>next_handle = 8, dropped = [7], AddMagnet_calls = 1, AddTorrent_calls = 0\<rparr>,
           db := \<lparr>rows = [], Get_calls = 1\<rparr>,
           clock := 30000001000\<rparr>)
   \<and> Error InfoTimeout = ''timeout getting torrent info''"
proof -
  let ?L = "''magnet:?xt=urn:btih:aa''"
  let ?r = "getTorrentFromMagnet demo_env ?L demo_client"
  have a: "ParseMagnetURI demo_env ?L = Inr ''aa''"
    "map_of (cache demo_client) ''aa'' = None"
    "case map_of (rows (db demo_client)) ''aa'' of None \<Rightarrow> True
     | Some b \<Rightarrow> isl (metainfo_Load demo_env b)"
    "AddMagnet_error demo_env ?L = None"
    "select_wait (info_after demo_env ?L) (done_after demo_env) (pick demo_env)
       = (TimeAfter, 30 * 1000000000)"
    "?r = (fst ?r, snd ?r)"
    by (simp_all add: demo_env_def demo_client_def select_wait_def info_timeout_def
        List.map_filter_simps)
  note h = getTorrentFromMagnet_cold_path [OF a]
  have rest: "snd ?r = (snd ?r)\<lparr>client := client (snd ?r), db := db (snd ?r)\<rparr>"
    by simp
  have "fst ?r = Inl InfoTimeout"
    using h by simp
  moreover have "snd ?r = demo_client
          \<lparr>client := \<lparr>next_handle = 8, dropped = [7], AddMagnet_calls = 1, AddTorrent_calls = 0\<rparr>,
           db := \<lparr>rows = [], Get_calls = 1\<rparr>,
           clock := 30000001000\<rparr>"
    by (simp add: getTorrentFromMagnet_def fetchFromMagnet_def AddMagnet_def select_wait_def
        sleep_def db_Get_def cache_Get_def info_timeout_def Let_def List.map_filter_simps
        Drop_def demo_env_def demo_client_def)
  ultimately show ?thesis
    by (simp add: prod_eq_iff)
qed

section \<open>Properties of the sweeper\<close>

lemma map_of_promote:
  "map_of xs k = Some e \<Longrightarrow> map_of ((k, e) # AList.delete k xs) = map_of xs"
  by (rule ext) (simp add: AList.delete_conv)

lemma queue_inactive_step:
  "\<exists>c. queue_inactive T k (acc, tc) = (if inactive T tc k then acc @ [k] else acc, tc\<lparr>cache := c\<rparr>)
       \<and> map_of c = map_of (cache tc)"
proof (cases "map_of (cache tc) k")
  case None
  then have "queue_inactive T k (acc, tc) = (acc, tc\<lparr>cache := cache tc\<rparr>)"
    by (simp add: queue_inactive_def cache_Get_def)
  with None show ?thesis
    by (intro exI [of _ "cache tc"]) (simp add: inactive_def)
next
  case (Some e)
  then have "queue_inactive T k (acc, tc)
      = (if inactive T tc k then acc @ [k] else acc, tc\<lparr>cache := (k, e) # AList.delete k (cache tc)\<rparr>)"
    by (simp add: queue_inactive_def cache_Get_def inactive_def time_Since_def Let_def)
  with map_of_promote [OF Some] show ?thesis
    by blast
qed

lemma inactive_cong:
  "map_of c = map_of (cache tc) \<Longrightarrow> inactive T (tc\<lparr>cache := c\<rparr>) = inactive T tc"
  by (rule ext) (simp add: inactive_def time_Since_def split: option.splits)

lemma queue_inactive_fold:
  "\<exists>c. fold (queue_inactive T) ks (acc, tc) = (acc @ filter (inactive T tc) ks, tc\<lparr>cache := c\<rparr>)
       \<and> map_of c = map_of (cache tc)"
proof (induction ks arbitrary: acc tc)
  case Nil
  have "fold (queue_inactive T) [] (acc, tc) = (acc @ filter (inactive T tc) [], tc\<lparr>cache := cache tc\<rparr>)"
    by simp
  then show ?case by (intro exI [of _ "cache tc"]) simp
next
  case (Cons k ks)
  obtain c where s: "queue_inactive T k (acc, tc)
                       = (if inactive T tc k then acc @ [k] else acc, tc\<lparr>cache := c\<rparr>)"
    and c: "map_of c = map_of (cache tc)"
    using queue_inactive_step by blast
  obtain c' where f: "fold (queue_inactive T) ks (if inactive T tc k then acc @ [k] else acc, tc\<lparr>cache := c\<rparr>)
       = ((if inactive T tc k then acc @ [k] else acc) @ filter (inactive T (tc\<lparr>cache := c\<rparr>)) ks,
          tc\<lparr>cache := c, cache := c'\<rparr>)"
    and c': "map_of c' = map_of (cache (tc\<lparr>cache := c\<rparr>))"
    using Cons.IH by blast
  have "filter (inactive T (tc\<lparr>cache := c\<rparr>)) ks = filter (inactive T tc) ks"
    by (simp only: inactive_cong [OF c])
  with s f have "fold (queue_inactive T) (k # ks) (acc, tc)
                   = (acc @ filter (inactive T tc) (k # ks), tc\<lparr>cache := c'\<rparr>)"
    by simp
  moreover have "map_of c' = map_of (cache tc)"
    using c c' by simp
  ultimately show ?case by blast
qed


lemma drop_inactive_miss:
  "map_of (cache tc) k = None \<Longrightarrow> drop_inactive k tc = tc"
  by (simp add: drop_inactive_def cache_Get_def)

lemma drop_inactive_hit:
  assumes "map_of (cache tc) k = Some e"
  shows "map_of (cache (drop_inactive k tc)) = (map_of (cache tc))(k := None)"
    and "map_of (rows (db (drop_inactive k tc))) = (map_of (rows (db tc)))(k := None)"
    and "dropped (client (drop_inactive k tc))
           = dropped (client tc) @ [handle (torrent e), handle (torrent e)]"
    and "clock (drop_inactive k tc) = clock tc"
  using assms
  by (auto simp: drop_inactive_def cache_Get_def cache_Remove_def db_Delete_def Drop_def
      AList.delete_conv fun_eq_iff)

lemma drop_inactive_fold:
  "map_of (cache (fold drop_inactive ks tc)) x
     = (if x \<in> set ks then None else map_of (cache tc) x)
   \<and> map_of (rows (db (fold drop_inactive ks tc))) x
     = (if x \<in> set ks \<and> map_of (cache tc) x \<noteq> None then None else map_of (rows (db tc)) x)
   \<and> clock (fold drop_inactive ks tc) = clock tc"
proof (induction ks arbitrary: tc)
  case Nil
  show ?case by simp
next
  case (Cons k ks)
  show ?case
  proof (cases "map_of (cache tc) k")
    case None
    with Cons.IH [of tc] show ?thesis
      by (auto simp: drop_inactive_miss)
  next
    case (Some e)
    note h = drop_inactive_hit [OF Some]
    with Cons.IH [of "drop_inactive k tc"] Some show ?thesis
      by (auto simp: h)
  qed
qed

lemma drop_inactive_fold_dropped:
  "h \<in> set (dropped (client (fold drop_inactive ks tc)))
     \<longleftrightarrow> h \<in> set (dropped (client tc))
          \<or> (\<exists>k e. k \<in> set ks \<and> map_of (cache tc) k = Some e \<and> handle (torrent e) = h)"
proof (induction ks arbitrary: tc)
  case Nil
  show ?case by simp
next
  case (Cons k ks)
  show ?case
  proof (cases "map_of (cache tc) k")
    case None
    with Cons.IH [of tc] show ?thesis
      by (auto simp: drop_inactive_miss)
  next
    case (Some e)
    note h = drop_inactive_hit [OF Some]
    have "(\<exists>k' e'. k' \<in> set ks \<and> ((map_of (cache tc))(k := None)) k' = Some e' \<and> handle (torrent e') = h)
            \<or> handle (torrent e) = h
          \<longleftrightarrow> (\<exists>k' e'. k' \<in> set (k # ks) \<and> map_of (cache tc) k' = Some e' \<and> handle (torrent e') = h)"
      (is "?A \<or> ?B \<longleftrightarrow> ?C")
    proof
      assume "?A \<or> ?B"
      then show ?C
      proof
        assume ?A
        then obtain k' e' where "k' \<in> set ks" "((map_of (cache tc))(k := None)) k' = Some e'"
          "handle (torrent e') = h"
          by blast
        then have "k' \<in> set (k # ks) \<and> map_of (cache tc) k' = Some e' \<and> handle (torrent e') = h"
          by (cases "k' = k") simp_all
        then show ?C by blast
      next
        assume ?B
        with Some have "k \<in> set (k # ks) \<and> map_of (cache tc) k = Some e \<and> handle (torrent e) = h"
          by simp
        then show ?C by blast
      qed
    next
      assume ?C
      then obtain k' e' where c: "k' \<in> set (k # ks)" "map_of (cache tc) k' = Some e'"
        "handle (torrent e') = h"
        by blast
      show "?A \<or> ?B"
      proof (cases "k' = k")
        case True
        with c Some show ?thesis by simp
      next
        case False
        with c have "k' \<in> set ks \<and> ((map_of (cache tc))(k := None)) k' = Some e' \<and> handle (torrent e') = h"
          by simp
        then show ?thesis by blast
      qed
    qed
    moreover have "h \<in> set (dropped (client (fold drop_inactive (k # ks) tc)))
      \<longleftrightarrow> h \<in> set (dropped (client tc)) \<or> handle (torrent e) = h
          \<or> (\<exists>k' e'. k' \<in> set ks \<and> ((map_of (cache tc))(k := None)) k' = Some e' \<and> handle (torrent e') = h)"
      using Cons.IH [of "drop_inactive k tc"] by (simp only: fold_simps h) auto
    ultimately show ?thesis
      by blast
  qed
qed


lemma cleanupInactiveTorrents_fold:
  "\<exists>c. map_of c = map_of (cache tc)
     \<and> cleanupInactiveTorrents T tc
         = fold drop_inactive (filter (inactive T tc) (cache_Keys tc)) (tc\<lparr>cache := c\<rparr>)"
proof -
  obtain c where f: "fold (queue_inactive T) (cache_Keys tc) ([], tc)
                       = ([] @ filter (inactive T tc) (cache_Keys tc), tc\<lparr>cache := c\<rparr>)"
    and c: "map_of c = map_of (cache tc)"
    using queue_inactive_fold by blast
  have "cleanupInactiveTorrents T tc
          = fold drop_inactive (filter (inactive T tc) (cache_Keys tc)) (tc\<lparr>cache := c\<rparr>)"
    by (cases "filter (inactive T tc) (cache_Keys tc)") (simp_all add: cleanupInactiveTorrents_def f)
  with c show ?thesis by blast
qed

lemma inactive_queued:
  "k \<in> set (filter (inactive T tc) (cache_Keys tc)) \<longleftrightarrow> inactive T tc k"
  by (auto simp: cache_Keys_def inactive_def split: option.splits dest: map_of_SomeD)
     (force dest: map_of_SomeD)

text \<open>
  C7.  A sweep with a threshold \<open>T > 0\<close> removes from the cache exactly the entries whose
  idle time (the current time minus \<open>lastAccessed\<close>) is strictly greater than \<open>T\<close>: these
  keys are no longer in the cache and every other entry is unchanged; the row of every
  removed key is deleted from the metadata store and the other rows are unchanged; the
  torrents dropped by the sweep are exactly the torrents of the removed entries.  In \<open>main\<close>
  a positive threshold runs such a sweep at every tick of five minutes, and with a
  threshold \<open>\<le> 0\<close> the sweeper is not started and the state is left as it is.
\<close>

theorem cleanupInactiveTorrents_evicts_inactive:
  assumes "0 < T" and "tc' = cleanupInactiveTorrents T tc"
  shows "(\<forall>k. map_of (cache tc') k = (if inactive T tc k then None else map_of (cache tc) k))
       \<and> (\<forall>k. map_of (rows (db tc')) k
                = (if inactive T tc k then None else map_of (rows (db tc)) k))
       \<and> (\<forall>h. h \<in> set (dropped (client tc'))
                \<longleftrightarrow> h \<in> set (dropped (client tc))
                     \<or> (\<exists>k e. inactive T tc k \<and> map_of (cache tc) k = Some e
                               \<and> handle (torrent e) = h))
       \<and> main_cleanup T (Suc ticks) tc
           = periodicCleanup ticks (5 * 60 * 1000000000) T
               (cleanupInactiveTorrents T (sleep (5 * 60 * 1000000000) tc))
       \<and> (\<forall>T0. T0 \<le> 0 \<longrightarrow> main_cleanup T0 ticks tc = tc)"
proof -
  obtain c where c: "map_of c = map_of (cache tc)"
    and r: "tc' = fold drop_inactive (filter (inactive T tc) (cache_Keys tc)) (tc\<lparr>cache := c\<rparr>)"
    using cleanupInactiveTorrents_fold assms(2) by blast
  let ?ks = "filter (inactive T tc) (cache_Keys tc)"
  note f = drop_inactive_fold [of ?ks "tc\<lparr>cache := c\<rparr>"]
  have q: "k \<in> set (cache_Keys tc) \<and> inactive T tc k \<longleftrightarrow> inactive T tc k" for k
    using inactive_queued [of k T tc] by simp
  have i: "inactive T tc k \<Longrightarrow> map_of (cache tc) k \<noteq> None" for k
    by (auto simp: inactive_def split: option.splits)
  have a: "map_of (cache tc') k = (if inactive T tc k then None else map_of (cache tc) k)" for k
    using f [of k] by (simp add: r c q)
  have b: "map_of (rows (db tc')) k = (if inactive T tc k then None else map_of (rows (db tc)) k)" for k
    using f [of k] i [of k] by (simp add: r c q)
  have d: "h \<in> set (dropped (client tc'))
                \<longleftrightarrow> h \<in> set (dropped (client tc))
                     \<or> (\<exists>k e. inactive T tc k \<and> map_of (cache tc) k = Some e
                               \<and> handle (torrent e) = h)" for h
    using drop_inactive_fold_dropped [of h ?ks "tc\<lparr>cache := c\<rparr>"]
    by (simp add: r c q)
  have m: "main_cleanup T (Suc ticks) tc
           = periodicCleanup ticks (5 * 60 * 1000000000) T
               (cleanupInactiveTorrents T (sleep (5 * 60 * 1000000000) tc))"
    using assms(1) by (simp add: main_cleanup_def)
  have n: "T0 \<le> 0 \<Longrightarrow> main_cleanup T0 ticks tc = tc" for T0
    by (simp add: main_cleanup_def)
  from a b d m n show ?thesis
    by blast
qed


theorem cleanupInactiveTorrents_evicts_inactive_witness:
  "(0 :: int) < 500
   \<and> map_of (cache (cleanupInactiveTorrents 500
         (demo_client\<lparr>cache := [(''bb'', demo_entry 2 ''bb'' 900), (''aa'', demo_entry 1 ''aa'' 400)],
                      db := \<lparr>rows = [(''aa'', ''m1''), (''bb'', ''m2'')], Get_calls = 0\<rparr>\<rparr>)))
       = [''bb'' \<mapsto> demo_entry 2 ''bb'' 900]
   \<and> map_of (rows (db (cleanupInactiveTorrents 500
         (demo_client\<lparr>cache := [(''bb'', demo_entry 2 ''bb'' 900), (''aa'', demo_entry 1 ''aa'' 400)],
                      db := \<lparr>rows = [(''aa'', ''m1''), (''bb'', ''m2'')], Get_calls = 0\<rparr>\<rparr>))))
       = [''bb'' \<mapsto> ''m2'']
   \<and> set (dropped (client (cleanupInactiveTorrents 500
         (demo_client\<lparr>cache := [(''bb'', demo_entry 2 ''bb'' 900), (''aa'', demo_entry 1 ''aa'' 400)],
                      db := \<lparr>rows = [(''aa'', ''m1''), (''bb'', ''m2'')], Get_calls = 0\<rparr>\<rparr>))))
       = {1}
   \<and> main_cleanup 0 3 demo_client = demo_client"
proof -
  let ?tc = "demo_client\<lparr>cache := [(''bb'', demo_entry 2 ''bb'' 900), (''aa'', demo_entry 1 ''aa'' 400)],
                      db := \<lparr>rows = [(''aa'', ''m1''), (''bb'', ''m2'')], Get_calls = 0\<rparr>\<rparr>"
  have i: "inactive 500 ?tc k \<longleftrightarrow> k = ''aa''" for k
    by (simp add: inactive_def time_Since_def demo_client_def demo_entry_def)
  note h = cleanupInactiveTorrents_evicts_inactive [of 500 "cleanupInactiveTorrents 500 ?tc" ?tc 2,
      unfolded i, OF _ refl]
  have "map_of (cache (cleanupInactiveTorrents 500 ?tc)) k = [''bb'' \<mapsto> demo_entry 2 ''bb'' 900] k" for k
    using h by simp
  then have a: "map_of (cache (cleanupInactiveTorrents 500 ?tc)) = [''bb'' \<mapsto> demo_entry 2 ''bb'' 900]"
    by (rule ext)
  have "map_of (rows (db (cleanupInactiveTorrents 500 ?tc))) k = [''bb'' \<mapsto> ''m2''] k" for k
    using h by simp
  then have b: "map_of (rows (db (cleanupInactiveTorrents 500 ?tc))) = [''bb'' \<mapsto> ''m2'']"
    by (rule ext)
  have "h' \<in> set (dropped (client (cleanupInactiveTorrents 500 ?tc))) \<longleftrightarrow> h' = 1" for h'
    using h by (auto simp: demo_client_def demo_entry_def)
  then have d: "set (dropped (client (cleanupInactiveTorrents 500 ?tc))) = {1}"
    by auto
  have m: "main_cleanup 0 3 demo_client = demo_client"
    using cleanupInactiveTorrents_evicts_inactive [of 500 _ demo_client 3, OF _ refl] by simp
  from a b d m show ?thesis
    by simp
qed

section \<open>The subtitle-file endpoint\<close>

text \<open>
  C10.  The claim: the subtitle-file endpoint rejects every request whose resolved path
  escapes the download directory, so no file outside it is served.  The handler compares
  the cleaned path with the directory as strings, without a separator after the
  directory, so a sibling directory whose name continues the download directory's name
  passes: with download directory \<open>/data/dl\<close> the parameter \<open>../dl2/secret.ass\<close>
  resolves to \<open>/data/dl2/secret.ass\<close>, which is outside \<open>/data/dl\<close> and is handed to
  \<open>ServeFile\<close>.
\<close>

theorem serveSubtitleFileHandler_serves_sibling_directory:
  "serveSubtitleFileHandler (tc\<lparr>downloadDir := ''/data/dl''\<rparr>) ''../dl2/secret.ass''
     = ServedFile ''/data/dl2/secret.ass''
   \<and> \<not> inside_dir ''/data/dl'' ''/data/dl2/secret.ass''"
  by (simp add: serveSubtitleFileHandler_def Clean_def components_def clean_step_def
      isRooted_def HasPrefix_def inside_dir_def)

end
